theory Spec2Isabelle
  imports Complex_Main
begin

section \<open>Exceptions\<close>

text \<open>
  The typed errors of \<^verbatim>\<open>podman.libs.errors\<close>, as \<^verbatim>\<open>podman/__init__.py\<close> exports them.
\<close>

datatype kind =
    ContainerNotFound | ImageNotFound | PodNotFound | NoContainerRunning
  | NoContainersInPod | InvalidState | PodContainerError | ErrorOccurred

text \<open>
  What the environment (the varlink library, the socket, the daemon) can raise into the
  library. The library treats two classes specially: \<^verbatim>\<open>VarlinkError\<close> (tested with
  \<^verbatim>\<open>isinstance\<close> in \<^verbatim>\<open>__exit__\<close>) carrying the daemon's error identifier and its
  parameters, and \<^verbatim>\<open>BrokenPipeError\<close> (caught in \<^verbatim>\<open>Container._refresh\<close>). Every other
  exception class is handled alike and is \<open>Other\<close>, with its text.
\<close>

datatype fault = Varlink string string | BrokenPipe | Other string

text \<open>
  The exceptions that leave the library: the three above as they are, and those the
  library raises itself: the typed error made by the fault translator (kind, message,
  original identifier), \<^verbatim>\<open>TimeoutError\<close> of the polling loops, \<^verbatim>\<open>ValueError\<close> of the
  argument checks, and \<^verbatim>\<open>AttributeError\<close> for an attribute read on \<^verbatim>\<open>None\<close> or an
  attribute never set.
\<close>

datatype exn =
    VarlinkError string string
  | BrokenPipeError
  | OtherError string
  | TypedError kind string string
  | TimeoutError
  | ValueError string
  | AttributeError string

fun thrown :: "fault \<Rightarrow> exn" where
  "thrown (Varlink ident params) = VarlinkError ident params"
| "thrown BrokenPipe = BrokenPipeError"
| "thrown (Other msg) = OtherError msg"

section \<open>Connection context and the client factory\<close>












section \<open>The fault translator\<close>

text \<open>
  Modelled from the spec: \<^verbatim>\<open>error_factory\<close> of \<^verbatim>\<open>podman/libs/errors.py\<close>, which is not
  among the sources. The spec (4.5) has it map the daemon's error identifier to a typed
  error by exact match against a fixed table, an unknown identifier falling back to
  \<^verbatim>\<open>ErrorOccurred\<close> with the original message; it never fails. The table itself is not in
  the spec and is a parameter.
\<close>

definition error_factory :: "(string \<rightharpoonup> kind) \<Rightarrow> string \<Rightarrow> string \<Rightarrow> exn" where
  "error_factory table ident params =
     TypedError (case table ident of None \<Rightarrow> ErrorOccurred | Some k \<Rightarrow> k) params ident"

section \<open>The environment and the state of the library\<close>

text \<open>
  The daemon, the varlink library, the ssh tunnel and the clock are outside the library.
  Their behaviour is a script: the outcome of the k-th call of each kind. A theorem for
  every script holds for every daemon.
\<close>

type_synonym handle = nat

text \<open>
  \<^verbatim>\<open>BaseClient.open\<close> has two steps that can raise: building \<^verbatim>\<open>VarlinkClient(address=...)\<close>
  and \<^verbatim>\<open>self._client.open(interface)\<close>.
\<close>

datatype connect_outcome = Connected | ConnectFails fault | OpenFails fault

text \<open>The six arguments of the daemon's \<^verbatim>\<open>Commit\<close> call, in the order of the call.\<close>

record commit_call =
  cc_id :: string
  cc_image_name :: string
  cc_change :: "string list"
  cc_author :: string
  cc_message :: string
  cc_pause :: bool

record environment =
  has_close :: bool
    \<comment> \<open>\<^verbatim>\<open>hasattr(self._client, "close")\<close> for a varlink client object\<close>
  connect :: "nat \<Rightarrow> connect_outcome"
    \<comment> \<open>the k-th run of \<^verbatim>\<open>BaseClient.open\<close>\<close>
  bore :: "nat \<Rightarrow> fault option"
    \<comment> \<open>the k-th \<^verbatim>\<open>Tunnel(context).bore()\<close>: the fault it raises, if any\<close>
  table :: "string \<rightharpoonup> kind"
    \<comment> \<open>the table of the fault translator\<close>
  GetContainer :: "nat \<Rightarrow> fault + (string \<times> string) list"
    \<comment> \<open>the k-th fetch: a fault, or the reply's \<^verbatim>\<open>container\<close> dictionary\<close>
  GetPod :: "nat \<Rightarrow> fault + (string \<times> string) list"
    \<comment> \<open>the k-th fetch of a pod: a fault, or the reply's \<^verbatim>\<open>pod\<close> dictionary\<close>
  KillContainer :: "fault option"
  KillPod :: "fault option"
  time :: "nat \<Rightarrow> real"
    \<comment> \<open>the k-th reading of \<^verbatim>\<open>time.time()\<close>\<close>
  FoldedString_ne :: "string \<Rightarrow> string \<Rightarrow> bool"
    \<comment> \<open>\<^verbatim>\<open>FoldedString(a) != b\<close> (\<^verbatim>\<open>podman/libs/__init__.py\<close> is not among the sources)\<close>
  getuser :: string
    \<comment> \<open>\<^verbatim>\<open>getpass.getuser()\<close>\<close>
  Commit :: "commit_call \<Rightarrow> fault + string"
    \<comment> \<open>a fault, or \<^verbatim>\<open>results['reply']['id']\<close>\<close>
  ContainerExists :: "string \<Rightarrow> fault + int"
    \<comment> \<open>a fault, or \<^verbatim>\<open>exist['exists']\<close>\<close>

text \<open>
  The state: the two attributes of the client object, the channels opened so far and the
  \<^verbatim>\<open>close()\<close> calls made on them, the portal of a remote client and its tunnels, and the
  dictionary of the container or pod at hand with the counters of the scripts.
\<close>

record world =
  self_client :: "handle option"
    \<comment> \<open>\<^verbatim>\<open>self._client\<close>\<close>
  self_iface :: "handle option"
    \<comment> \<open>\<^verbatim>\<open>self._iface\<close>\<close>
  connections :: nat
    \<comment> \<open>runs of \<^verbatim>\<open>BaseClient.open\<close> so far; the next handle\<close>
  client_closes :: "handle list"
    \<comment> \<open>the \<^verbatim>\<open>self._client.close()\<close> calls, oldest first\<close>
  iface_closes :: "handle list"
    \<comment> \<open>the \<^verbatim>\<open>self._iface.close()\<close> calls, oldest first\<close>
  portal :: "string \<rightharpoonup> nat"
    \<comment> \<open>\<^verbatim>\<open>self._portal\<close>\<close>
  tunnels :: nat
    \<comment> \<open>\<^verbatim>\<open>bore()\<close> calls so far; the next tunnel\<close>
  tunnel_closes :: "nat list"
    \<comment> \<open>the \<^verbatim>\<open>tunnel.close()\<close> calls, oldest first\<close>
  data :: "string \<rightharpoonup> string"
    \<comment> \<open>\<^verbatim>\<open>self.data\<close> of the container or pod; \<^verbatim>\<open>_refresh\<close> sets an attribute for each key\<close>
  fetches :: nat
    \<comment> \<open>\<^verbatim>\<open>GetContainer\<close> or \<^verbatim>\<open>GetPod\<close> calls so far\<close>
  clock_reads :: nat
    \<comment> \<open>\<^verbatim>\<open>time.time()\<close> calls so far\<close>
  sleeps :: "real list"
    \<comment> \<open>the \<^verbatim>\<open>time.sleep(d)\<close> calls, oldest first\<close>
  commit_calls :: "commit_call list"
    \<comment> \<open>the \<^verbatim>\<open>Commit\<close> calls sent to the daemon, oldest first\<close>

section \<open>Transport sessions\<close>

text \<open>\<^verbatim>\<open>BaseClient.open\<close>.\<close>

definition BaseClient_open :: "environment \<Rightarrow> world \<Rightarrow> (exn + handle) \<times> world" where
  "BaseClient_open env w =
     (let k = connections w; w1 = w\<lparr>connections := k + 1\<rparr> in
      case connect env k of
        ConnectFails f \<Rightarrow> (Inl (thrown f), w1)
      | OpenFails f \<Rightarrow> (Inl (thrown f), w1\<lparr>self_client := Some k\<rparr>)
      | Connected \<Rightarrow> (Inr k, w1\<lparr>self_client := Some k, self_iface := Some k\<rparr>))"

text \<open>
  \<^verbatim>\<open>BaseClient.close\<close>: \<^verbatim>\<open>self._client.close()\<close> when that object has the attribute
  (\<^verbatim>\<open>None\<close> has not), then \<^verbatim>\<open>self._iface.close()\<close>, which on \<^verbatim>\<open>None\<close> is an
  \<^verbatim>\<open>AttributeError\<close>.
\<close>

definition BaseClient_close :: "environment \<Rightarrow> world \<Rightarrow> (exn + unit) \<times> world" where
  "BaseClient_close env w =
     (let w1 = (case self_client w of
                  None \<Rightarrow> w
                | Some c \<Rightarrow>
                    if has_close env then w\<lparr>client_closes := client_closes w @ [c]\<rparr> else w)
      in case self_iface w1 of
           None \<Rightarrow> (Inl (AttributeError ''close''), w1)
         | Some h \<Rightarrow> (Inr (), w1\<lparr>iface_closes := iface_closes w1 @ [h]\<rparr>))"

text \<open>\<^verbatim>\<open>LocalClient.__enter__\<close> and \<^verbatim>\<open>LocalClient.__exit__\<close>; \<open>e\<close> is the pending exception.\<close>

definition LocalClient_enter :: "environment \<Rightarrow> world \<Rightarrow> (exn + handle) \<times> world" where
  "LocalClient_enter env w = BaseClient_open env w"

definition LocalClient_exit :: "environment \<Rightarrow> exn option \<Rightarrow> world \<Rightarrow> (exn + unit) \<times> world" where
  "LocalClient_exit env e w =
     (case BaseClient_close env w of
        (Inl x, w1) \<Rightarrow> (Inl x, w1)
      | (Inr u, w1) \<Rightarrow>
          (case e of
             Some (VarlinkError ident params) \<Rightarrow> (Inl (error_factory (table env) ident params), w1)
           | _ \<Rightarrow> (Inr (), w1)))"

text \<open>
  Modelled from the spec: \<^verbatim>\<open>Portal\<close> of \<^verbatim>\<open>podman/libs/tunnel.py\<close>, which is not among
  the sources. The spec (3, 4.3) has it a mapping from keys to tunnels:
  \<^verbatim>\<open>portal.get(key)\<close> is the mapping's lookup, \<^verbatim>\<open>None\<close> for a missing key, and
  \<^verbatim>\<open>portal[key] = tunnel\<close> stores.
\<close>

definition Portal_get :: "world \<Rightarrow> string \<Rightarrow> nat option" where
  [simp]: "Portal_get w key = portal w key"

definition Portal_setitem :: "string \<Rightarrow> nat \<Rightarrow> world \<Rightarrow> world" where
  [simp]: "Portal_setitem key tunnel w = w\<lparr>portal := (portal w)(key \<mapsto> tunnel)\<rparr>"

text \<open>
  Modelled from the spec: \<^verbatim>\<open>Tunnel\<close> of \<^verbatim>\<open>podman/libs/tunnel.py\<close>, which is not among
  the sources. The spec (4.2) has \<^verbatim>\<open>bore()\<close> give a new tunnel or raise, and
  \<^verbatim>\<open>close()\<close> end the tunnel, a second \<^verbatim>\<open>close()\<close> changing nothing: a call of
  \<^verbatim>\<open>close()\<close> is recorded, and a tunnel is open while no call has closed it.
\<close>

definition Tunnel_bore :: "environment \<Rightarrow> world \<Rightarrow> (exn + nat) \<times> world" where
  [simp]: "Tunnel_bore env w =
     (let t = tunnels w; w1 = w\<lparr>tunnels := t + 1\<rparr> in
      case bore env t of
        Some f \<Rightarrow> (Inl (thrown f), w1)
      | None \<Rightarrow> (Inr t, w1))"

definition Tunnel_close :: "nat \<Rightarrow> world \<Rightarrow> world" where
  [simp]: "Tunnel_close tunnel w = w\<lparr>tunnel_closes := tunnel_closes w @ [tunnel]\<rparr>"

text \<open>\<^verbatim>\<open>RemoteClient.__enter__\<close>, with \<open>key\<close> for \<^verbatim>\<open>self._context.uri\<close>.\<close>

definition RemoteClient_enter :: "environment \<Rightarrow> string \<Rightarrow> world \<Rightarrow> (exn + handle) \<times> world" where
  "RemoteClient_enter env key w =
     (case (case Portal_get w key of
              Some t \<Rightarrow> (Inr t, w)
            | None \<Rightarrow>
                (case Tunnel_bore env w of
                   (Inl e, w1) \<Rightarrow> (Inl e, w1)
                 | (Inr t, w1) \<Rightarrow> (Inr t, Portal_setitem key t w1)))
      of
        (Inl e, w1) \<Rightarrow> (Inl e, w1)
      | (Inr tunnel, w1) \<Rightarrow>
          (case BaseClient_open env w1 of
             (Inr h, w2) \<Rightarrow> (Inr h, w2)
           | (Inl e, w2) \<Rightarrow> (Inl e, Tunnel_close tunnel w2)))"

text \<open>A tunnel is open while no \<^verbatim>\<open>close()\<close> call was made on it.\<close>

definition tunnel_open :: "world \<Rightarrow> nat \<Rightarrow> bool" where
  "tunnel_open w t = (t \<notin> set (tunnel_closes w))"

text \<open>\<^verbatim>\<open>RemoteClient.__exit__\<close>.\<close>

definition RemoteClient_exit :: "environment \<Rightarrow> exn option \<Rightarrow> world \<Rightarrow> (exn + unit) \<times> world" where
  "RemoteClient_exit env e w =
     (case BaseClient_close env w of
        (Inl x, w1) \<Rightarrow> (Inl x, w1)
      | (Inr u, w1) \<Rightarrow>
          (case e of
             Some (VarlinkError ident params) \<Rightarrow> (Inl (error_factory (table env) ident params), w1)
           | _ \<Rightarrow> (Inr (), w1)))"

text \<open>
  The client a facade holds is a \<^verbatim>\<open>LocalClient\<close> or a \<^verbatim>\<open>RemoteClient\<close>;
  \<^verbatim>\<open>self._client()\<close> is that object itself (\<^verbatim>\<open>BaseClient.__call__\<close>).
\<close>

datatype session = Local | Remote string

fun enter_session :: "environment \<Rightarrow> session \<Rightarrow> world \<Rightarrow> (exn + handle) \<times> world" where
  "enter_session env Local w = LocalClient_enter env w"
| "enter_session env (Remote key) w = RemoteClient_enter env key w"

fun exit_session :: "environment \<Rightarrow> session \<Rightarrow> exn option \<Rightarrow> world \<Rightarrow> (exn + unit) \<times> world" where
  "exit_session env Local e w = LocalClient_exit env e w"
| "exit_session env (Remote key) e w = RemoteClient_exit env e w"

text \<open>
  Python's \<^verbatim>\<open>with\<close> statement. When \<^verbatim>\<open>__enter__\<close> raises, the block and \<^verbatim>\<open>__exit__\<close> do
  not run. Otherwise \<^verbatim>\<open>__exit__\<close> runs once on the outcome of the block: an exception it
  raises replaces the outcome, and as the clients' \<^verbatim>\<open>__exit__\<close> returns \<^verbatim>\<open>None\<close>, a
  pending exception of the block is raised again after it.
\<close>

definition leave ::
  "environment \<Rightarrow> session \<Rightarrow> (exn + 'a) \<times> world \<Rightarrow> (exn + 'a) \<times> world" where
  "leave env c out =
     (case out of
        (Inr v, w2) \<Rightarrow>
          (case exit_session env c None w2 of
             (Inl x, w3) \<Rightarrow> (Inl x, w3)
           | (Inr u, w3) \<Rightarrow> (Inr v, w3))
      | (Inl e, w2) \<Rightarrow>
          (case exit_session env c (Some e) w2 of
             (Inl x, w3) \<Rightarrow> (Inl x, w3)
           | (Inr u, w3) \<Rightarrow> (Inl e, w3)))"

definition with_client ::
  "environment \<Rightarrow> session \<Rightarrow> (handle \<Rightarrow> world \<Rightarrow> (exn + 'a) \<times> world) \<Rightarrow> world
     \<Rightarrow> (exn + 'a) \<times> world" where
  "with_client env c body w =
     (case enter_session env c w of
        (Inl e, w1) \<Rightarrow> (Inl e, w1)
      | (Inr podman, w1) \<Rightarrow> leave env c (body podman w1))"

section \<open>Containers and pods\<close>

text \<open>What a method returns: \<^verbatim>\<open>self\<close>, or \<^verbatim>\<open>None\<close> where it ends without a \<^verbatim>\<open>return\<close>.\<close>

datatype returned = ReturnsSelf | ReturnsNone

text \<open>
  The successful branch of \<^verbatim>\<open>Container._refresh\<close>: \<^verbatim>\<open>self.data\<close> is updated with the
  reply, every key becomes an attribute, and \<^verbatim>\<open>containerrunning\<close> is copied to
  \<^verbatim>\<open>running\<close>. The attributes mirror \<^verbatim>\<open>self.data\<close>, so \<^verbatim>\<open>self.status\<close> is read there.
\<close>

definition update_container :: "(string \<times> string) list \<Rightarrow> world \<Rightarrow> world" where
  "update_container ctnr w =
     (let d = data w ++ map_of ctnr in
      w\<lparr>data := (case d ''containerrunning'' of
                   None \<Rightarrow> d
                 | Some r \<Rightarrow> d(''running'' \<mapsto> r))\<rparr>)"

text \<open>
  \<^verbatim>\<open>Container._refresh(podman, tries)\<close>. On a broken pipe it opens a session on the same
  client and calls itself with \<^verbatim>\<open>tries + 1\<close>; the value of that call is dropped.
\<close>

function Container_refresh ::
  "environment \<Rightarrow> session \<Rightarrow> handle \<Rightarrow> nat \<Rightarrow> world \<Rightarrow> (exn + returned) \<times> world" where
  "Container_refresh env c podman tries w =
     (case GetContainer env (fetches w) of
        Inl BrokenPipe \<Rightarrow>
          if tries > 3 then (Inl BrokenPipeError, w\<lparr>fetches := fetches w + 1\<rparr>)
          else
            (case with_client env c (\<lambda>pman. Container_refresh env c pman (tries + 1))
                    (w\<lparr>fetches := fetches w + 1\<rparr>) of
               (Inl e, w2) \<Rightarrow> (Inl e, w2)
             | (Inr r, w2) \<Rightarrow> (Inr ReturnsNone, w2))
      | Inl f \<Rightarrow> (Inl (thrown f), w\<lparr>fetches := fetches w + 1\<rparr>)
      | Inr ctnr \<Rightarrow> (Inr ReturnsSelf, update_container ctnr (w\<lparr>fetches := fetches w + 1\<rparr>)))"
  by pat_completeness auto
termination
  by (relation "measure (\<lambda>(env, c, podman, tries, w). 4 - tries)") auto

declare Container_refresh.simps [simp del]

text \<open>
  \<^verbatim>\<open>Container.refresh()\<close>: a session around \<^verbatim>\<open>self._refresh(podman)\<close>, whose value it
  returns.
\<close>

definition Container_refresh_public ::
  "environment \<Rightarrow> session \<Rightarrow> world \<Rightarrow> (exn + returned) \<times> world" where
  "Container_refresh_public env c w =
     with_client env c (\<lambda>podman. Container_refresh env c podman 1) w"

text \<open>
  The loop of \<^verbatim>\<open>Container.kill\<close>. It has no bound of its own, so a run that does not
  return is the value \<open>None\<close>. \<^verbatim>\<open>wait and timeout < time.time()\<close> reads the clock only
  when \<^verbatim>\<open>wait\<close> is not zero. Times are real numbers.
\<close>

partial_function (option) Container_kill_loop ::
  "environment \<Rightarrow> session \<Rightarrow> real \<Rightarrow> real \<Rightarrow> handle \<Rightarrow> world
     \<Rightarrow> ((exn + returned) \<times> world) option" where
  "Container_kill_loop env c wait timeout podman w =
     (case Container_refresh env c podman 1 w of
        (Inl e, w1) \<Rightarrow> Some (Inl e, w1)
      | (Inr r, w1) \<Rightarrow>
          (case data w1 ''status'' of
             None \<Rightarrow> Some (Inl (AttributeError ''status''), w1)
           | Some status \<Rightarrow>
               if status \<noteq> ''running'' then Some (Inr ReturnsSelf, w1)
               else if wait \<noteq> 0 then
                 (if timeout < time env (clock_reads w1)
                  then Some (Inl TimeoutError, w1\<lparr>clock_reads := clock_reads w1 + 1\<rparr>)
                  else Container_kill_loop env c wait timeout podman
                         (w1\<lparr>clock_reads := clock_reads w1 + 1,
                             sleeps := sleeps w1 @ [0.5]\<rparr>))
               else Container_kill_loop env c wait timeout podman
                      (w1\<lparr>sleeps := sleeps w1 @ [0.5]\<rparr>)))"

text \<open>
  \<^verbatim>\<open>Container.kill(sig, wait)\<close>; the signal only travels to the daemon, whose answer to
  \<^verbatim>\<open>KillContainer\<close> is in the environment.
\<close>

definition Container_kill ::
  "environment \<Rightarrow> session \<Rightarrow> real \<Rightarrow> world \<Rightarrow> ((exn + returned) \<times> world) option" where
  "Container_kill env c wait w =
     (case enter_session env c w of
        (Inl e, w1) \<Rightarrow> Some (Inl e, w1)
      | (Inr podman, w1) \<Rightarrow>
          map_option (leave env c)
            (case KillContainer env of
               Some f \<Rightarrow> Some (Inl (thrown f), w1)
             | None \<Rightarrow>
                 Container_kill_loop env c wait (time env (clock_reads w1) + wait) podman
                   (w1\<lparr>clock_reads := clock_reads w1 + 1\<rparr>)))"

text \<open>\<^verbatim>\<open>Pod._refresh\<close>: one fetch, no retry.\<close>

definition Pod_refresh :: "environment \<Rightarrow> handle \<Rightarrow> world \<Rightarrow> (exn + returned) \<times> world" where
  "Pod_refresh env podman w =
     (case GetPod env (fetches w) of
        Inl f \<Rightarrow> (Inl (thrown f), w\<lparr>fetches := fetches w + 1\<rparr>)
      | Inr pod \<Rightarrow>
          (Inr ReturnsSelf, w\<lparr>fetches := fetches w + 1, data := data w ++ map_of pod\<rparr>))"

text \<open>The loop of \<^verbatim>\<open>Pod.kill\<close>.\<close>

partial_function (option) Pod_kill_loop ::
  "environment \<Rightarrow> real \<Rightarrow> real \<Rightarrow> handle \<Rightarrow> world \<Rightarrow> ((exn + returned) \<times> world) option" where
  "Pod_kill_loop env wait timeout podman w =
     (case Pod_refresh env podman w of
        (Inl e, w1) \<Rightarrow> Some (Inl e, w1)
      | (Inr r, w1) \<Rightarrow>
          (case data w1 ''status'' of
             None \<Rightarrow> Some (Inl (AttributeError ''status''), w1)
           | Some status \<Rightarrow>
               if FoldedString_ne env status ''running'' then Some (Inr ReturnsSelf, w1)
               else if wait \<noteq> 0 then
                 (if timeout < time env (clock_reads w1)
                  then Some (Inl TimeoutError, w1\<lparr>clock_reads := clock_reads w1 + 1\<rparr>)
                  else Pod_kill_loop env wait timeout podman
                         (w1\<lparr>clock_reads := clock_reads w1 + 1,
                             sleeps := sleeps w1 @ [0.5]\<rparr>))
               else Pod_kill_loop env wait timeout podman
                      (w1\<lparr>sleeps := sleeps w1 @ [0.5]\<rparr>)))"

text \<open>\<^verbatim>\<open>Pod.kill(signal_, wait)\<close>.\<close>

definition Pod_kill ::
  "environment \<Rightarrow> session \<Rightarrow> real \<Rightarrow> world \<Rightarrow> ((exn + returned) \<times> world) option" where
  "Pod_kill env c wait w =
     (case enter_session env c w of
        (Inl e, w1) \<Rightarrow> Some (Inl e, w1)
      | (Inr podman, w1) \<Rightarrow>
          map_option (leave env c)
            (case KillPod env of
               Some f \<Rightarrow> Some (Inl (thrown f), w1)
             | None \<Rightarrow>
                 Pod_kill_loop env wait (time env (clock_reads w1) + wait) podman
                   (w1\<lparr>clock_reads := clock_reads w1 + 1\<rparr>)))"

text \<open>
  The keyword arguments \<^verbatim>\<open>Container.commit\<close> reads, with the types its docstring gives
  them; \<open>None\<close> is a key left out or given as \<^verbatim>\<open>None\<close> (\<^verbatim>\<open>kwargs.get(k, None)\<close>).
\<close>

record commit_kwargs =
  author :: "string option"
  change :: "string list option"
  message :: "string option"
  pause :: "bool option"

text \<open>
  \<^verbatim>\<open>Container.commit(image_name, **kwargs)\<close> for the container \<open>ident\<close>. Python's
  \<^verbatim>\<open>x or y\<close> is \<^verbatim>\<open>x\<close> when \<^verbatim>\<open>x\<close> is true (a non-empty string or list, \<^verbatim>\<open>True\<close>) and
  \<^verbatim>\<open>y\<close> otherwise.
\<close>

definition Container_commit ::
  "environment \<Rightarrow> session \<Rightarrow> string \<Rightarrow> string \<Rightarrow> commit_kwargs \<Rightarrow> world
     \<Rightarrow> (exn + string) \<times> world" where
  "Container_commit env c ident image_name kwargs w =
     (let author_v = (case author kwargs of
                        None \<Rightarrow> getuser env
                      | Some a \<Rightarrow> if a \<noteq> [] then a else getuser env);
          change_v = (case change kwargs of
                        None \<Rightarrow> []
                      | Some cs \<Rightarrow> if cs \<noteq> [] then cs else []);
          message_v = (case message kwargs of
                         None \<Rightarrow> []
                       | Some m \<Rightarrow> if m \<noteq> [] then m else []);
          pause_v = (case pause kwargs of
                       None \<Rightarrow> True
                     | Some p \<Rightarrow> if p then p else True)
      in case find (\<lambda>ch. take 6 ch = ''LABEL='' \<and> count_list ch (CHR ''='') < 2) change_v of
           Some ch \<Rightarrow>
             (Inl (ValueError
                (''LABEL should have the format: LABEL=label=value, not '' @ ch)), w)
         | None \<Rightarrow>
             with_client env c
               (\<lambda>podman w1.
                  (let call = \<lparr>cc_id = ident, cc_image_name = image_name,
                               cc_change = change_v, cc_author = author_v,
                               cc_message = message_v, cc_pause = pause_v\<rparr>;
                       w2 = w1\<lparr>commit_calls := commit_calls w1 @ [call]\<rparr>
                   in case Commit env call of
                        Inl f \<Rightarrow> (Inl (thrown f), w2)
                      | Inr reply_id \<Rightarrow> (Inr reply_id, w2)))
               w)"

text \<open>\<^verbatim>\<open>Containers.exists(id_)\<close>.\<close>

definition Containers_exists ::
  "environment \<Rightarrow> session \<Rightarrow> string \<Rightarrow> world \<Rightarrow> (exn + bool) \<times> world" where
  "Containers_exists env c ident w =
     (case with_client env c
             (\<lambda>podman w1.
                case ContainerExists env ident of
                  Inl f \<Rightarrow> (Inl (thrown f), w1)
                | Inr exists_field \<Rightarrow>
                    if exists_field = 0 then (Inr (Some True), w1) else (Inr None, w1))
             w of
        (Inl e, w3) \<Rightarrow> (Inl e, w3)
      | (Inr (Some b), w3) \<Rightarrow> (Inr b, w3)
      | (Inr None, w3) \<Rightarrow> (Inr False, w3))"

section \<open>Sample environments\<close>

text \<open>
  The state right after the client and the facade are constructed: no channel yet, an
  empty portal, an empty dictionary.
\<close>

definition world0 :: world where
  "world0 =
     \<lparr>self_client = None, self_iface = None, connections = 0, client_closes = [],
      iface_closes = [], portal = Map.empty, tunnels = 0, tunnel_closes = [],
      data = Map.empty, fetches = 0, clock_reads = 0, sleeps = [], commit_calls = []\<rparr>"

text \<open>
  A daemon that accepts every connection and answers every call; its container and its
  pod stay in the state \<^verbatim>\<open>running\<close>. The clock advances by half a second per reading.
\<close>

definition quiet_daemon :: environment where
  "quiet_daemon =
     \<lparr>has_close = False, connect = (\<lambda>k. Connected), bore = (\<lambda>k. None),
      table = [''io.podman.ContainerNotFound'' \<mapsto> ContainerNotFound],
      GetContainer = (\<lambda>k. Inr [(''id'', ''c1''), (''status'', ''running'')]),
      GetPod = (\<lambda>k. Inr [(''id'', ''p1''), (''status'', ''running'')]),
      KillContainer = None, KillPod = None, time = (\<lambda>k. real k / 2),
      FoldedString_ne = (\<lambda>a b. a \<noteq> b), getuser = ''root'',
      Commit = (\<lambda>call. Inr ''image1''), ContainerExists = (\<lambda>ident. Inr 0)\<rparr>"

text \<open>A daemon that accepts the first connection and refuses every later one.\<close>

definition daemon_stops :: environment where
  "daemon_stops =
     quiet_daemon\<lparr>connect :=
       (\<lambda>k. if k = 0 then Connected else ConnectFails (Other ''ConnectionRefusedError''))\<rparr>"

text \<open>The state after one remote session on \<open>daemon_stops\<close> has come and gone.\<close>

definition after_first_session :: world where
  "after_first_session =
     snd (with_client daemon_stops (Remote ''unix:/tmp/podman.sock'')
            (\<lambda>podman w. (Inr (), w)) world0)"






text \<open>The state inside a first session on a daemon that accepted the connection.\<close>

definition in_session :: world where
  "in_session = world0\<lparr>connections := 1, self_client := Some 0, self_iface := Some 0\<rparr>"

text \<open>A daemon whose every fetch of the container breaks the pipe.\<close>

definition pipe_broken :: environment where
  "pipe_broken = quiet_daemon\<lparr>GetContainer := (\<lambda>k. Inl BrokenPipe)\<rparr>"

text \<open>A daemon whose first fetch breaks the pipe and whose later fetches answer.\<close>

definition pipe_breaks_once :: environment where
  "pipe_breaks_once =
     quiet_daemon\<lparr>GetContainer :=
       (\<lambda>k. if k = 0 then Inl BrokenPipe else Inr [(''id'', ''c1''), (''status'', ''running'')])\<rparr>"

text \<open>A daemon whose first two fetches break the pipe; the container has stopped.\<close>

definition pipe_recovers :: environment where
  "pipe_recovers =
     quiet_daemon\<lparr>GetContainer :=
       (\<lambda>k. if k < 2 then Inl BrokenPipe else Inr [(''id'', ''c1''), (''status'', ''exited'')])\<rparr>"

text \<open>
  A daemon whose container is seen running twice and whose pod once, and stopped from
  then on.
\<close>

definition stops_later :: environment where
  "stops_later =
     quiet_daemon\<lparr>GetContainer :=
         (\<lambda>k. if k < 2 then Inr [(''id'', ''c1''), (''status'', ''running'')]
              else Inr [(''id'', ''c1''), (''status'', ''exited'')]),
       GetPod :=
         (\<lambda>k. if k < 1 then Inr [(''id'', ''p1''), (''status'', ''running'')]
              else Inr [(''id'', ''p1''), (''status'', ''exited'')])\<rparr>"

text \<open>A daemon that answers \<^verbatim>\<open>ContainerExists\<close> with 1 in the field \<^verbatim>\<open>exists\<close>.\<close>

definition answers_one :: environment where
  "answers_one = quiet_daemon\<lparr>ContainerExists := (\<lambda>ident. Inr 1)\<rparr>"

text \<open>Keyword arguments of a commit that asks for no pause.\<close>

definition unpaused :: commit_kwargs where
  "unpaused =
     \<lparr>author = Some ''bozo'', change = Some [''LABEL=unittest=test_commit''],
      message = None, pause = Some False\<rparr>"

section \<open>Invariants used in the statements\<close>

text \<open>Every channel that was closed was opened before: handles are given out in order.\<close>

definition closes_known :: "world \<Rightarrow> bool" where
  "closes_known w = list_all (\<lambda>x. x < connections w) (iface_closes w)"

text \<open>
  A session on the client can get its tunnel: a local client needs none, a remote one
  finds it in the portal or can bore it.
\<close>

definition tunnel_ready :: "environment \<Rightarrow> session \<Rightarrow> world \<Rightarrow> bool" where
  "tunnel_ready env c w =
     (case c of
        Local \<Rightarrow> True
      | Remote key \<Rightarrow> portal w key \<noteq> None \<or> bore env (tunnels w) = None)"

section \<open>The client factory validates its input\<close>




section \<open>What the session operations leave alone\<close>

lemma open_handle:
  "BaseClient_open env w = (Inr h, w1) \<Longrightarrow>
     h = connections w \<and> self_iface w1 = Some h \<and> self_client w1 = Some h
     \<and> iface_closes w1 = iface_closes w \<and> client_closes w1 = client_closes w"
  by (auto simp: BaseClient_open_def Let_def split: connect_outcome.splits)

lemma enter_handle:
  assumes "enter_session env c w = (Inr h, w1)"
  shows "h = connections w \<and> self_iface w1 = Some h \<and> self_client w1 = Some h
     \<and> iface_closes w1 = iface_closes w \<and> client_closes w1 = client_closes w"
proof (cases c)
  case Local
  with assms show ?thesis by (simp add: LocalClient_enter_def open_handle)
next
  case (Remote key)
  with assms show ?thesis
    by (auto simp: RemoteClient_enter_def Let_def
        split: option.splits prod.splits sum.splits dest!: open_handle)
qed

lemma close_bound:
  "self_iface w = Some h \<Longrightarrow> self_client w = Some h \<Longrightarrow>
   BaseClient_close env w =
     (Inr (), w\<lparr>client_closes := client_closes w @ (if has_close env then [h] else []),
               iface_closes := iface_closes w @ [h]\<rparr>)"
  by (simp add: BaseClient_close_def Let_def)

lemma exit_bound:
  "self_iface w = Some h \<Longrightarrow> self_client w = Some h \<Longrightarrow>
   snd (exit_session env c e w) =
     w\<lparr>client_closes := client_closes w @ (if has_close env then [h] else []),
       iface_closes := iface_closes w @ [h]\<rparr>"
  by (cases c)
     (auto simp: LocalClient_exit_def RemoteClient_exit_def close_bound
        split: option.splits exn.splits)

lemma leave_cases:
  "leave env c (r, w) =
     (case fst (exit_session env c (case r of Inl e \<Rightarrow> Some e | Inr v \<Rightarrow> None) w) of
        Inl x \<Rightarrow> Inl x
      | Inr u \<Rightarrow> r,
      snd (exit_session env c (case r of Inl e \<Rightarrow> Some e | Inr v \<Rightarrow> None) w))"
  by (cases r) (auto simp: leave_def split: prod.splits sum.splits)

lemma close_ok:
  "self_iface w = Some h \<Longrightarrow> \<exists>w'. BaseClient_close env w = (Inr (), w')"
  by (simp add: BaseClient_close_def Let_def split: option.splits)

lemma exit_session_raises:
  assumes "self_iface w = Some h"
  shows "fst (exit_session env c e w) =
           (case e of
              Some (VarlinkError ident params) \<Rightarrow> Inl (error_factory (table env) ident params)
            | _ \<Rightarrow> Inr ())"
proof -
  from close_ok[OF assms] obtain w' where "BaseClient_close env w = (Inr (), w')" by blast
  then show ?thesis
    by (cases c)
       (auto simp: LocalClient_exit_def RemoteClient_exit_def split: option.splits exn.splits)
qed

lemma open_fails:
  "connect env (connections w) = ConnectFails f \<or> connect env (connections w) = OpenFails f \<Longrightarrow>
   \<exists>w'. BaseClient_open env w = (Inl (thrown f), w') \<and> portal w' = portal w
        \<and> tunnel_closes w' = tunnel_closes w"
  by (auto simp: BaseClient_open_def Let_def)

lemma after_first_session_eq:
  "after_first_session =
     world0\<lparr>self_client := Some 0, self_iface := Some 0, connections := 1,
            iface_closes := [0], portal := [''unix:/tmp/podman.sock'' \<mapsto> 0], tunnels := 1\<rparr>"
  by (simp add: after_first_session_def with_client_def RemoteClient_enter_def world0_def
      daemon_stops_def quiet_daemon_def BaseClient_open_def Let_def leave_def
      RemoteClient_exit_def BaseClient_close_def)

section \<open>A session closes its channel once, unless its block enters the client again\<close>

text \<open>
  Take a session, local or remote, whose \<^verbatim>\<open>__enter__\<close> returned the channel \<open>h\<close>, and
  a block that ends in any way \<open>r\<close> (a value, a \<^verbatim>\<open>VarlinkError\<close>, any other exception)
  and does not itself close or reopen the client. Then leaving the \<^verbatim>\<open>with\<close> statement
  calls \<^verbatim>\<open>close()\<close> on \<open>h\<close> once: the log of channel closes grows by \<open>h\<close> alone, \<open>h\<close>
  occurs in it once, and the varlink client object is closed once when it has a
  \<^verbatim>\<open>close\<close> attribute.
\<close>

lemma channel_closed_exactly_once:
  assumes known: "closes_known w"
    and enter: "enter_session env c w = (Inr h, w1)"
    and body: "body h w1 = (r, w2)"
    and frame: "self_client w2 = self_client w1" "self_iface w2 = self_iface w1"
      "client_closes w2 = client_closes w1" "iface_closes w2 = iface_closes w1"
  shows "iface_closes (snd (with_client env c body w)) = iface_closes w @ [h]
       \<and> count_list (iface_closes (snd (with_client env c body w))) h = 1
       \<and> client_closes (snd (with_client env c body w)) =
           client_closes w @ (if has_close env then [h] else [])"
proof -
  from enter_handle[OF enter] have h: "h = connections w" "self_iface w1 = Some h"
    "self_client w1 = Some h" "iface_closes w1 = iface_closes w"
    "client_closes w1 = client_closes w" by simp_all
  have w2: "self_iface w2 = Some h" "self_client w2 = Some h"
    using frame h by simp_all
  have fin: "snd (with_client env c body w) =
     w2\<lparr>client_closes := client_closes w2 @ (if has_close env then [h] else []),
        iface_closes := iface_closes w2 @ [h]\<rparr>"
    using enter body by (simp add: with_client_def leave_cases exit_bound[OF w2])
  have "h \<notin> set (iface_closes w)"
    using known h(1) by (auto simp: closes_known_def list_all_iff)
  then have "count_list (iface_closes w) h = 0" by (simp add: count_list_0_iff)
  then show ?thesis using fin frame h by simp
qed

lemma channel_closed_exactly_once_example:
  "closes_known world0
   \<and> enter_session quiet_daemon Local world0 =
       (Inr 0, world0\<lparr>connections := 1, self_client := Some 0, self_iface := Some 0\<rparr>)
   \<and> iface_closes (snd (with_client quiet_daemon Local
        (\<lambda>podman w. (Inr ''pong'', w)) world0)) = [0]
   \<and> iface_closes (snd (with_client quiet_daemon Local
        (\<lambda>podman w. (Inl (VarlinkError ''io.podman.ContainerNotFound'' ''c9'') :: exn + string, w))
        world0)) = [0]
   \<and> count_list (iface_closes (snd (with_client quiet_daemon (Remote ''unix:/tmp/podman.sock'')
        (\<lambda>podman w. (Inl (OtherError ''KeyError'') :: exn + string, w)) world0))) 0 = 1"
proof -
  let ?w1 = "world0\<lparr>connections := 1, self_client := Some 0, self_iface := Some 0\<rparr>"
  let ?w1r = "world0\<lparr>tunnels := 1, portal := [''unix:/tmp/podman.sock'' \<mapsto> 0],
     connections := 1, self_client := Some 0, self_iface := Some 0\<rparr>"
  have k: "closes_known world0" by (simp add: closes_known_def world0_def)
  have e: "enter_session quiet_daemon Local world0 = (Inr 0, ?w1)"
    by (simp add: LocalClient_enter_def BaseClient_open_def quiet_daemon_def world0_def Let_def)
  have er: "enter_session quiet_daemon (Remote ''unix:/tmp/podman.sock'') world0 = (Inr 0, ?w1r)"
    by (simp add: RemoteClient_enter_def BaseClient_open_def quiet_daemon_def world0_def Let_def)
  have z: "iface_closes world0 = []" by (simp add: world0_def)
  from channel_closed_exactly_once[OF k e, of "\<lambda>podman w. (Inr ''pong'', w)" "Inr ''pong''" ?w1]
    channel_closed_exactly_once[OF k e,
      of "\<lambda>podman w. (Inl (VarlinkError ''io.podman.ContainerNotFound'' ''c9'') :: exn + string, w)"
         "Inl (VarlinkError ''io.podman.ContainerNotFound'' ''c9'')" ?w1]
    channel_closed_exactly_once[OF k er,
      of "\<lambda>podman w. (Inl (OtherError ''KeyError'') :: exn + string, w)"
         "Inl (OtherError ''KeyError'')" ?w1r]
    k e z
  show ?thesis by simp
qed

text \<open>
  C1. The library's own sessions do not all keep to that. \<^verbatim>\<open>Container.refresh()\<close> opens
  a session, channel 0. When the first fetch breaks the pipe, \<^verbatim>\<open>_refresh\<close> enters the
  same client object again, which binds channel 1 to it, and fetches with success. The
  inner \<^verbatim>\<open>__exit__\<close> closes channel 1, and the outer \<^verbatim>\<open>__exit__\<close> closes what the client
  holds by then, channel 1 once more: channel 0, the channel of the outer session, is
  never closed.
\<close>

theorem refresh_retry_leaks_channel:
  "fst (Container_refresh_public pipe_breaks_once Local world0) = Inr ReturnsNone
   \<and> connections (snd (Container_refresh_public pipe_breaks_once Local world0)) = 2
   \<and> iface_closes (snd (Container_refresh_public pipe_breaks_once Local world0)) = [1, 1]
   \<and> count_list (iface_closes (snd (Container_refresh_public pipe_breaks_once Local world0))) 0
       = 0"
  by (simp add: Container_refresh_public_def with_client_def LocalClient_enter_def
      BaseClient_open_def pipe_breaks_once_def quiet_daemon_def world0_def Let_def
      Container_refresh.simps leave_def LocalClient_exit_def BaseClient_close_def
      update_container_def)

section \<open>Leaving a session translates protocol faults\<close>

text \<open>
  C3. Take a session, local or remote, whose block raised \<open>e\<close> while the client still
  holds a channel. If \<open>e\<close> is a \<^verbatim>\<open>VarlinkError\<close>, the \<^verbatim>\<open>with\<close> statement raises what the
  fault translator makes of it, which is a typed error carrying the identifier and the
  parameters; any other \<open>e\<close> leaves the \<^verbatim>\<open>with\<close> statement as it is.
\<close>

theorem release_translates_protocol_faults:
  assumes enter: "enter_session env c w = (Inr h, w1)"
    and body: "body h w1 = (Inl e, w2)"
    and bound: "self_iface w2 = Some h'"
  shows "(\<forall>ident params. e = VarlinkError ident params \<longrightarrow>
            fst (with_client env c body w) = Inl (error_factory (table env) ident params)
          \<and> (\<exists>k. error_factory (table env) ident params = TypedError k params ident))
       \<and> ((\<forall>ident params. e \<noteq> VarlinkError ident params) \<longrightarrow>
            fst (with_client env c body w) = Inl e)"
proof -
  have "fst (with_client env c body w) =
          (case fst (exit_session env c (Some e) w2) of Inl x \<Rightarrow> Inl x | Inr u \<Rightarrow> Inl e)"
    using enter body by (simp add: with_client_def leave_cases)
  then show ?thesis
    by (cases e) (simp_all add: exit_session_raises[OF bound] error_factory_def)
qed

theorem release_translates_protocol_faults_witness:
  "enter_session quiet_daemon Local world0 =
       (Inr 0, world0\<lparr>connections := 1, self_client := Some 0, self_iface := Some 0\<rparr>)
   \<and> fst (with_client quiet_daemon Local
        (\<lambda>podman w. (Inl (VarlinkError ''io.podman.ContainerNotFound'' ''c9'') :: exn + string, w))
        world0) = Inl (TypedError ContainerNotFound ''c9'' ''io.podman.ContainerNotFound'')
   \<and> fst (with_client quiet_daemon Local
        (\<lambda>podman w. (Inl (VarlinkError ''io.podman.Mystery'' ''x'') :: exn + string, w))
        world0) = Inl (TypedError ErrorOccurred ''x'' ''io.podman.Mystery'')
   \<and> fst (with_client quiet_daemon (Remote ''unix:/tmp/podman.sock'')
        (\<lambda>podman w. (Inl BrokenPipeError :: exn + string, w)) world0) = Inl BrokenPipeError"
proof -
  let ?w1 = "world0\<lparr>connections := 1, self_client := Some 0, self_iface := Some 0\<rparr>"
  let ?w1r = "world0\<lparr>tunnels := 1, portal := [''unix:/tmp/podman.sock'' \<mapsto> 0],
     connections := 1, self_client := Some 0, self_iface := Some 0\<rparr>"
  have e: "enter_session quiet_daemon Local world0 = (Inr 0, ?w1)"
    by (simp add: LocalClient_enter_def BaseClient_open_def quiet_daemon_def world0_def Let_def)
  have er: "enter_session quiet_daemon (Remote ''unix:/tmp/podman.sock'') world0 = (Inr 0, ?w1r)"
    by (simp add: RemoteClient_enter_def BaseClient_open_def quiet_daemon_def world0_def Let_def)
  have t: "table quiet_daemon ''io.podman.ContainerNotFound'' = Some ContainerNotFound"
    "table quiet_daemon ''io.podman.Mystery'' = None"
    by (simp_all add: quiet_daemon_def)
  from release_translates_protocol_faults[OF e,
      of "\<lambda>podman w. (Inl (VarlinkError ''io.podman.ContainerNotFound'' ''c9'') :: exn + string, w)"
         "VarlinkError ''io.podman.ContainerNotFound'' ''c9''" ?w1 0]
    release_translates_protocol_faults[OF e,
      of "\<lambda>podman w. (Inl (VarlinkError ''io.podman.Mystery'' ''x'') :: exn + string, w)"
         "VarlinkError ''io.podman.Mystery'' ''x''" ?w1 0]
    release_translates_protocol_faults[OF er,
      of "\<lambda>podman w. (Inl BrokenPipeError :: exn + string, w)" BrokenPipeError ?w1r 0]
    e t
  show ?thesis by (simp add: error_factory_def)
qed

section \<open>A remote session that fails to open closes its tunnel\<close>

text \<open>
  C2, as the code has it. When \<^verbatim>\<open>RemoteClient.__enter__\<close> has its tunnel \<open>t\<close>, found in
  the portal or bored in this call, and \<^verbatim>\<open>open()\<close> then fails, the exception of
  \<^verbatim>\<open>open()\<close> is raised and \<open>t\<close> is closed in both cases; the portal keeps \<open>t\<close> under
  the key.
\<close>

theorem remote_enter_failure_closes_obtained_tunnel:
  assumes obtained: "portal w key = Some t
      \<or> (portal w key = None \<and> bore env (tunnels w) = None \<and> t = tunnels w)"
    and fails: "connect env (connections w) = ConnectFails f
      \<or> connect env (connections w) = OpenFails f"
  shows "fst (RemoteClient_enter env key w) = Inl (thrown f)
       \<and> tunnel_closes (snd (RemoteClient_enter env key w)) = tunnel_closes w @ [t]
       \<and> \<not> tunnel_open (snd (RemoteClient_enter env key w)) t
       \<and> portal (snd (RemoteClient_enter env key w)) key = Some t"
proof -
  from obtained show ?thesis
  proof
    assume reused: "portal w key = Some t"
    from open_fails[OF fails] obtain w' where
      "BaseClient_open env w = (Inl (thrown f), w')" "portal w' = portal w"
      "tunnel_closes w' = tunnel_closes w" by blast
    with reused show ?thesis
      by (simp add: RemoteClient_enter_def tunnel_open_def)
  next
    assume created: "portal w key = None \<and> bore env (tunnels w) = None \<and> t = tunnels w"
    let ?w1 = "w\<lparr>tunnels := t + 1, portal := (portal w)(key \<mapsto> t)\<rparr>"
    have "connect env (connections ?w1) = ConnectFails f
        \<or> connect env (connections ?w1) = OpenFails f"
      using fails by simp
    from open_fails[OF this] obtain w' where
      "BaseClient_open env ?w1 = (Inl (thrown f), w')" "portal w' = portal ?w1"
      "tunnel_closes w' = tunnel_closes ?w1" by blast
    with created show ?thesis
      by (simp add: RemoteClient_enter_def tunnel_open_def Let_def)
  qed
qed

theorem remote_enter_failure_closes_obtained_tunnel_witness:
  "(portal after_first_session ''unix:/tmp/podman.sock'' = Some 0
    \<and> connect daemon_stops (connections after_first_session)
        = ConnectFails (Other ''ConnectionRefusedError''))
   \<and> fst (RemoteClient_enter daemon_stops ''unix:/tmp/podman.sock'' after_first_session)
       = Inl (OtherError ''ConnectionRefusedError'')
   \<and> tunnel_closes (snd (RemoteClient_enter daemon_stops ''unix:/tmp/podman.sock''
        after_first_session)) = [0]
   \<and> (portal after_first_session ''unix:/tmp/other.sock'' = None
    \<and> bore daemon_stops (tunnels after_first_session) = None)
   \<and> tunnel_closes (snd (RemoteClient_enter daemon_stops ''unix:/tmp/other.sock''
        after_first_session)) = [1]"
proof -
  have h1: "portal after_first_session ''unix:/tmp/podman.sock'' = Some 0"
    by (simp add: after_first_session_eq)
  have h2: "connect daemon_stops (connections after_first_session)
        = ConnectFails (Other ''ConnectionRefusedError'')"
    by (simp add: after_first_session_eq daemon_stops_def)
  have h3: "portal after_first_session ''unix:/tmp/other.sock'' = None
      \<and> bore daemon_stops (tunnels after_first_session) = None
      \<and> 1 = tunnels after_first_session"
    by (simp add: after_first_session_eq daemon_stops_def quiet_daemon_def world0_def)
  have z: "tunnel_closes after_first_session = []"
    by (simp add: after_first_session_eq world0_def)
  from remote_enter_failure_closes_obtained_tunnel[OF disjI1[OF h1] disjI1[OF h2]]
    remote_enter_failure_closes_obtained_tunnel[OF disjI2[OF h3] disjI1[OF h2]]
    h1 h2 h3 z
  show ?thesis by simp
qed

text \<open>
  The claim as the spec words it fails: a second session on \<open>daemon_stops\<close> finds the
  tunnel of the first session in the portal, open; the daemon refuses the connection,
  and \<^verbatim>\<open>__enter__\<close> closes that reused tunnel.
\<close>

theorem reused_tunnel_closed_counterexample:
  "portal after_first_session ''unix:/tmp/podman.sock'' = Some 0
   \<and> tunnel_open after_first_session 0
   \<and> fst (RemoteClient_enter daemon_stops ''unix:/tmp/podman.sock'' after_first_session)
       = Inl (OtherError ''ConnectionRefusedError'')
   \<and> \<not> tunnel_open
         (snd (RemoteClient_enter daemon_stops ''unix:/tmp/podman.sock'' after_first_session)) 0"
  by (simp add: after_first_session_eq RemoteClient_enter_def world0_def
      daemon_stops_def quiet_daemon_def BaseClient_open_def Let_def tunnel_open_def)

section \<open>Refreshing a container retries on a broken pipe\<close>

lemma enter_fetches: "fetches (snd (enter_session env c w)) = fetches w"
  by (cases c)
     (auto simp: LocalClient_enter_def RemoteClient_enter_def BaseClient_open_def Let_def
        split: option.splits connect_outcome.splits prod.splits sum.splits)

lemma exit_frame:
  "connections (snd (exit_session env c e w)) = connections w
   \<and> self_iface (snd (exit_session env c e w)) = self_iface w
   \<and> fetches (snd (exit_session env c e w)) = fetches w
   \<and> data (snd (exit_session env c e w)) = data w
   \<and> sleeps (snd (exit_session env c e w)) = sleeps w"
  by (cases c)
     (auto simp: LocalClient_exit_def RemoteClient_exit_def BaseClient_close_def Let_def
        split: option.splits exn.splits)

lemma with_client_fetches:
  "fetches (snd (with_client env c body w)) =
     (case enter_session env c w of
        (Inl e, w1) \<Rightarrow> fetches w
      | (Inr h, w1) \<Rightarrow> fetches (snd (body h w1)))"
proof (cases "enter_session env c w")
  case (Pair r w1)
  with enter_fetches[of env c w] have "fetches w1 = fetches w" by simp
  with Pair show ?thesis
    by (cases r; cases "body (projr r) w1") (simp_all add: with_client_def leave_cases exit_frame)
qed

lemma update_container_frame [simp]:
  "fetches (update_container ctnr w) = fetches w"
  "sleeps (update_container ctnr w) = sleeps w"
  "self_iface (update_container ctnr w) = self_iface w"
  "connections (update_container ctnr w) = connections w"
  by (simp_all add: update_container_def Let_def)

lemma update_container_data:
  "data w1 = data w \<Longrightarrow> data (update_container ctnr w1) = data (update_container ctnr w)"
  by (simp add: update_container_def Let_def)

lemma update_container_fetched [simp]:
  "data (update_container ctnr (w\<lparr>fetches := n\<rparr>)) = data (update_container ctnr w)"
  by (simp add: update_container_def Let_def)

lemma snd_drop_value:
  "snd (case p of (Inl e, w2) \<Rightarrow> (Inl e, w2) | (Inr r, w2) \<Rightarrow> (Inr v, w2)) = snd p"
  by (auto split: prod.splits sum.splits)

lemma refresh_fetch_bound:
  "tries \<le> 4 \<Longrightarrow>
   fetches (snd (Container_refresh env c podman tries w)) + tries \<le> fetches w + 5"
proof (induction env c podman tries w rule: Container_refresh.induct)
  case (1 env c podman tries w)
  show ?case
  proof (cases "GetContainer env (fetches w)")
    case (Inr ctnr)
    with "1.prems" show ?thesis by (simp add: Container_refresh.simps)
  next
    case (Inl f)
    show ?thesis
    proof (cases "f = BrokenPipe \<and> \<not> 3 < tries")
      case False
      with Inl "1.prems" show ?thesis by (cases f) (auto simp: Container_refresh.simps)
    next
      case True
      let ?w = "w\<lparr>fetches := fetches w + 1\<rparr>"
      obtain r w1 where e: "enter_session env c ?w = (r, w1)"
        by (cases "enter_session env c ?w")
      have f1: "fetches w1 = fetches w + 1" using enter_fetches[of env c ?w] e by simp
      have "fetches (snd (with_client env c (\<lambda>pman. Container_refresh env c pman (tries + 1)) ?w))
              + tries \<le> fetches w + 5"
      proof (cases r)
        case (Inl x)
        with e "1.prems" show ?thesis by (simp add: with_client_fetches)
      next
        case (Inr h)
        from "1.IH"[of f h w1] Inl True
        have "fetches (snd (Container_refresh env c h (tries + 1) w1)) + (tries + 1)
                \<le> fetches w1 + 5" by simp
        with f1 e Inr show ?thesis by (simp add: with_client_fetches)
      qed
      with Inl True show ?thesis
        by (subst Container_refresh.simps) (simp add: snd_drop_value)
    qed
  qed
qed

lemma enter_ready:
  assumes "tunnel_ready env c w" and "connect env (connections w) = Connected"
  shows "\<exists>w1. enter_session env c w = (Inr (connections w), w1)
          \<and> fetches w1 = fetches w \<and> connections w1 = connections w + 1
          \<and> data w1 = data w \<and> sleeps w1 = sleeps w
          \<and> self_iface w1 = Some (connections w) \<and> tunnel_ready env c w1"
  using assms
  by (cases c)
     (auto simp: tunnel_ready_def LocalClient_enter_def RemoteClient_enter_def
        BaseClient_open_def Let_def split: option.splits)

lemma leave_passes:
  assumes "self_iface w \<noteq> None" and "\<And>ident params. r \<noteq> Inl (VarlinkError ident params)"
  shows "leave env c (r, w) =
           (r, snd (exit_session env c (case r of Inl e \<Rightarrow> Some e | Inr v \<Rightarrow> None) w))"
proof -
  from assms(1) obtain h where "self_iface w = Some h" by blast
  from exit_session_raises[OF this, of env c] assms(2) show ?thesis
    by (cases r) (auto simp: leave_cases split: exn.splits)
qed

lemma refresh_exhausts:
  "tries \<le> 4 \<Longrightarrow>
   (\<forall>k<5 - tries. GetContainer env (fetches w + k) = Inl BrokenPipe) \<Longrightarrow>
   (\<forall>k<4 - tries. connect env (connections w + k) = Connected) \<Longrightarrow>
   tunnel_ready env c w \<Longrightarrow>
   \<exists>w'. Container_refresh env c podman tries w = (Inl BrokenPipeError, w')
      \<and> fetches w' + tries = fetches w + 5
      \<and> connections w' + tries = connections w + 4
      \<and> (self_iface w \<noteq> None \<longrightarrow> self_iface w' \<noteq> None)"
proof (induction env c podman tries w rule: Container_refresh.induct)
  case (1 env c podman tries w)
  from "1.prems"(2)[rule_format, of 0] "1.prems"(1)
  have bp: "GetContainer env (fetches w) = Inl BrokenPipe" by simp
  show ?case
  proof (cases "3 < tries")
    case True
    with "1.prems"(1) have "tries = 4" by simp
    with bp show ?thesis by (subst Container_refresh.simps) simp
  next
    case False
    let ?w = "w\<lparr>fetches := fetches w + 1\<rparr>"
    have "tunnel_ready env c ?w"
      using "1.prems"(4) by (simp add: tunnel_ready_def split: session.splits)
    moreover have "connect env (connections ?w) = Connected"
      using "1.prems"(3)[rule_format, of 0] False by simp
    ultimately obtain w1 where w1: "enter_session env c ?w = (Inr (connections w), w1)"
      "fetches w1 = fetches w + 1" "connections w1 = connections w + 1"
      "self_iface w1 = Some (connections w)" "tunnel_ready env c w1"
      using enter_ready[of env c ?w] by auto
    have a: "\<forall>k<5 - (tries + 1). GetContainer env (fetches w1 + k) = Inl BrokenPipe"
    proof (intro allI impI)
      fix k assume "k < 5 - (tries + 1)"
      then have "Suc k < 5 - tries" by simp
      with "1.prems"(2) have "GetContainer env (fetches w + Suc k) = Inl BrokenPipe" by blast
      then show "GetContainer env (fetches w1 + k) = Inl BrokenPipe" by (simp add: w1)
    qed
    have b: "\<forall>k<4 - (tries + 1). connect env (connections w1 + k) = Connected"
    proof (intro allI impI)
      fix k assume "k < 4 - (tries + 1)"
      then have "Suc k < 4 - tries" by simp
      with "1.prems"(3) have "connect env (connections w + Suc k) = Connected" by blast
      then show "connect env (connections w1 + k) = Connected" by (simp add: w1)
    qed
    from "1.IH"[OF bp refl False _ a b w1(5), of "connections w"] False
    obtain w2 where w2:
      "Container_refresh env c (connections w) (tries + 1) w1 = (Inl BrokenPipeError, w2)"
      "fetches w2 + (tries + 1) = fetches w1 + 5"
      "connections w2 + (tries + 1) = connections w1 + 4"
      "self_iface w2 \<noteq> None"
      using w1(4) by auto
    have "with_client env c (\<lambda>pman. Container_refresh env c pman (tries + 1)) ?w
            = (Inl BrokenPipeError, snd (exit_session env c (Some BrokenPipeError) w2))"
      using w1 w2 by (simp add: with_client_def leave_passes)
    with bp False show ?thesis
      apply (subst Container_refresh.simps)
      using w1 w2 by (simp add: exit_frame)
  qed
qed

lemma refresh_recovers:
  "tries + j \<le> 4 \<Longrightarrow>
   (\<forall>k<j. GetContainer env (fetches w + k) = Inl BrokenPipe) \<Longrightarrow>
   GetContainer env (fetches w + j) = Inr ctnr \<Longrightarrow>
   (\<forall>k<j. connect env (connections w + k) = Connected) \<Longrightarrow>
   tunnel_ready env c w \<Longrightarrow>
   \<exists>w'. Container_refresh env c podman tries w =
           (Inr (if j = 0 then ReturnsSelf else ReturnsNone), w')
      \<and> fetches w' = fetches w + j + 1
      \<and> data w' = data (update_container ctnr w)
      \<and> (self_iface w \<noteq> None \<longrightarrow> self_iface w' \<noteq> None)"
proof (induction env c podman tries w arbitrary: j rule: Container_refresh.induct)
  case (1 env c podman tries w)
  show ?case
  proof (cases j)
    case 0
    with "1.prems"(3) show ?thesis
      by (subst Container_refresh.simps) simp
  next
    case (Suc j')
    from "1.prems"(2)[rule_format, of 0] Suc
    have bp: "GetContainer env (fetches w) = Inl BrokenPipe" by simp
    from "1.prems"(1) Suc have small: "\<not> 3 < tries" by simp
    let ?w = "w\<lparr>fetches := fetches w + 1\<rparr>"
    have "tunnel_ready env c ?w"
      using "1.prems"(5) by (simp add: tunnel_ready_def split: session.splits)
    moreover have "connect env (connections ?w) = Connected"
      using "1.prems"(4)[rule_format, of 0] Suc by simp
    ultimately obtain w1 where w1: "enter_session env c ?w = (Inr (connections w), w1)"
      "fetches w1 = fetches w + 1" "connections w1 = connections w + 1"
      "self_iface w1 = Some (connections w)" "tunnel_ready env c w1" "data w1 = data w"
      using enter_ready[of env c ?w] by auto
    have a: "\<forall>k<j'. GetContainer env (fetches w1 + k) = Inl BrokenPipe"
    proof (intro allI impI)
      fix k assume "k < j'"
      then have "Suc k < j" using Suc by simp
      with "1.prems"(2) have "GetContainer env (fetches w + Suc k) = Inl BrokenPipe" by blast
      then show "GetContainer env (fetches w1 + k) = Inl BrokenPipe" by (simp add: w1)
    qed
    have b: "\<forall>k<j'. connect env (connections w1 + k) = Connected"
    proof (intro allI impI)
      fix k assume "k < j'"
      then have "Suc k < j" using Suc by simp
      with "1.prems"(4) have "connect env (connections w + Suc k) = Connected" by blast
      then show "connect env (connections w1 + k) = Connected" by (simp add: w1)
    qed
    have g: "GetContainer env (fetches w1 + j') = Inr ctnr"
      using "1.prems"(3) Suc by (simp add: w1)
    have t: "tries + 1 + j' \<le> 4" using "1.prems"(1) Suc by simp
    from "1.IH"[OF bp refl small t a g b w1(5), of "connections w"]
    obtain w2 where w2:
      "Container_refresh env c (connections w) (tries + 1) w1 =
         (Inr (if j' = 0 then ReturnsSelf else ReturnsNone), w2)"
      "fetches w2 = fetches w1 + j' + 1"
      "data w2 = data (update_container ctnr w1)"
      "self_iface w2 \<noteq> None"
      using w1(4) by auto
    have "with_client env c (\<lambda>pman. Container_refresh env c pman (tries + 1)) ?w
            = (Inr (if j' = 0 then ReturnsSelf else ReturnsNone),
               snd (exit_session env c None w2))"
      using w1 w2 by (simp add: with_client_def leave_passes)
    with bp small Suc show ?thesis
      apply (subst Container_refresh.simps)
      using w1 w2 update_container_data[OF w1(6), of ctnr] by (simp add: exit_frame)
  qed
qed

text \<open>
  C5. \<^verbatim>\<open>Container._refresh(podman)\<close> fetches at most four times: the first fetch and at
  most three retries. When each of the four fetches breaks the pipe (and each retry can
  open its session), the fourth \<^verbatim>\<open>BrokenPipeError\<close> is raised to the caller. When the
  pipe breaks \<open>j \<le> 3\<close> times and the next fetch succeeds, no further fetch is made, the
  reply is stored, and the call returns (\<^verbatim>\<open>self\<close> without a retry, \<^verbatim>\<open>None\<close> after one).
\<close>

theorem refresh_retries_three_times:
  "fetches (snd (Container_refresh env c podman 1 w)) \<le> fetches w + 4
   \<and> ((\<forall>k<4. GetContainer env (fetches w + k) = Inl BrokenPipe)
        \<and> (\<forall>k<3. connect env (connections w + k) = Connected) \<and> tunnel_ready env c w
       \<longrightarrow> fst (Container_refresh env c podman 1 w) = Inl BrokenPipeError
           \<and> fetches (snd (Container_refresh env c podman 1 w)) = fetches w + 4)
   \<and> (\<forall>j ctnr. j \<le> 3 \<and> (\<forall>k<j. GetContainer env (fetches w + k) = Inl BrokenPipe)
        \<and> GetContainer env (fetches w + j) = Inr ctnr
        \<and> (\<forall>k<j. connect env (connections w + k) = Connected) \<and> tunnel_ready env c w
       \<longrightarrow> fst (Container_refresh env c podman 1 w) =
             Inr (if j = 0 then ReturnsSelf else ReturnsNone)
           \<and> fetches (snd (Container_refresh env c podman 1 w)) = fetches w + j + 1
           \<and> data (snd (Container_refresh env c podman 1 w)) = data (update_container ctnr w))"
proof (intro conjI impI allI)
  show "fetches (snd (Container_refresh env c podman 1 w)) \<le> fetches w + 4"
    using refresh_fetch_bound[of 1 env c podman w] by simp
next
  assume a: "(\<forall>k<4. GetContainer env (fetches w + k) = Inl BrokenPipe)
        \<and> (\<forall>k<3. connect env (connections w + k) = Connected) \<and> tunnel_ready env c w"
  then obtain w' where "Container_refresh env c podman 1 w = (Inl BrokenPipeError, w')"
    "fetches w' + 1 = fetches w + 5"
    using refresh_exhausts[of 1 env w c podman] by auto
  then show "fst (Container_refresh env c podman 1 w) = Inl BrokenPipeError"
    "fetches (snd (Container_refresh env c podman 1 w)) = fetches w + 4" by simp_all
next
  fix j ctnr
  assume a: "j \<le> 3 \<and> (\<forall>k<j. GetContainer env (fetches w + k) = Inl BrokenPipe)
        \<and> GetContainer env (fetches w + j) = Inr ctnr
        \<and> (\<forall>k<j. connect env (connections w + k) = Connected) \<and> tunnel_ready env c w"
  then obtain w' where "Container_refresh env c podman 1 w =
           (Inr (if j = 0 then ReturnsSelf else ReturnsNone), w')"
    "fetches w' = fetches w + j + 1" "data w' = data (update_container ctnr w)"
    using refresh_recovers[of 1 j env w ctnr c podman] by auto
  then show "fst (Container_refresh env c podman 1 w) =
             Inr (if j = 0 then ReturnsSelf else ReturnsNone)"
    "fetches (snd (Container_refresh env c podman 1 w)) = fetches w + j + 1"
    "data (snd (Container_refresh env c podman 1 w)) = data (update_container ctnr w)"
    by simp_all
qed

theorem refresh_retries_three_times_witness:
  "(GetContainer pipe_broken (fetches in_session) = Inl BrokenPipe
     \<and> GetContainer pipe_broken (fetches in_session + 3) = Inl BrokenPipe
     \<and> connect pipe_broken (connections in_session + 2) = Connected
     \<and> tunnel_ready pipe_broken Local in_session)
   \<and> fst (Container_refresh pipe_broken Local 0 1 in_session) = Inl BrokenPipeError
   \<and> fetches (snd (Container_refresh pipe_broken Local 0 1 in_session)) = 4
   \<and> fst (Container_refresh pipe_recovers Local 0 1 in_session) = Inr ReturnsNone
   \<and> fetches (snd (Container_refresh pipe_recovers Local 0 1 in_session)) = 3
   \<and> data (snd (Container_refresh pipe_recovers Local 0 1 in_session)) ''status''
       = Some ''exited''"
proof -
  have h: "(\<forall>k<4. GetContainer pipe_broken (fetches in_session + k) = Inl BrokenPipe)
     \<and> (\<forall>k<3. connect pipe_broken (connections in_session + k) = Connected)
     \<and> tunnel_ready pipe_broken Local in_session"
    by (simp add: pipe_broken_def quiet_daemon_def tunnel_ready_def)
  have g: "(2::nat) \<le> 3 \<and> (\<forall>k<2. GetContainer pipe_recovers (fetches in_session + k) = Inl BrokenPipe)
     \<and> GetContainer pipe_recovers (fetches in_session + 2)
         = Inr [(''id'', ''c1''), (''status'', ''exited'')]
     \<and> (\<forall>k<2. connect pipe_recovers (connections in_session + k) = Connected)
     \<and> tunnel_ready pipe_recovers Local in_session"
    by (simp add: pipe_recovers_def quiet_daemon_def tunnel_ready_def in_session_def world0_def)
  have f: "fetches in_session = 0"
    by (simp add: in_session_def world0_def)
  have d: "data (update_container [(''id'', ''c1''), (''status'', ''exited'')] in_session)
             ''status'' = Some ''exited''"
    by (simp add: update_container_def Let_def in_session_def world0_def)
  note broken = refresh_retries_three_times[of pipe_broken Local 0 in_session,
      THEN conjunct2, THEN conjunct1, rule_format, OF h]
  note recovers = refresh_retries_three_times[of pipe_recovers Local 0 in_session,
      THEN conjunct2, THEN conjunct2, rule_format, OF g]
  have i: "GetContainer pipe_broken (fetches in_session) = Inl BrokenPipe"
    "GetContainer pipe_broken (fetches in_session + 3) = Inl BrokenPipe"
    "connect pipe_broken (connections in_session + 2) = Connected"
    "tunnel_ready pipe_broken Local in_session"
    by (simp_all add: pipe_broken_def quiet_daemon_def tunnel_ready_def)
  from broken recovers i f d show ?thesis by simp
qed

section \<open>Killing with a wait of zero\<close>

lemma thrown_not_timeout [simp]: "thrown f \<noteq> TimeoutError"
  by (cases f) simp_all

lemma enter_quiet:
  "fst (enter_session env c w) \<noteq> Inl TimeoutError
   \<and> sleeps (snd (enter_session env c w)) = sleeps w
   \<and> data (snd (enter_session env c w)) = data w"
  by (cases c)
     (auto simp: LocalClient_enter_def RemoteClient_enter_def BaseClient_open_def Let_def
        split: option.splits connect_outcome.splits prod.splits sum.splits)

lemma exit_no_timeout: "fst (exit_session env c e w) \<noteq> Inl TimeoutError"
  by (cases c)
     (auto simp: LocalClient_exit_def RemoteClient_exit_def BaseClient_close_def Let_def
        error_factory_def split: option.splits exn.splits)

lemma leave_quiet:
  "(r \<noteq> Inl TimeoutError \<longrightarrow> fst (leave env c (r, w)) \<noteq> Inl TimeoutError)
   \<and> sleeps (snd (leave env c (r, w))) = sleeps w
   \<and> data (snd (leave env c (r, w))) = data w
   \<and> (fst (leave env c (r, w)) = Inr v \<longrightarrow> r = Inr v)"
  using exit_no_timeout[of env c _ w]
  by (auto simp: leave_cases exit_frame split: sum.splits)

lemma refresh_quiet:
  "fst (Container_refresh env c podman tries w) \<noteq> Inl TimeoutError
   \<and> sleeps (snd (Container_refresh env c podman tries w)) = sleeps w"
proof (induction env c podman tries w rule: Container_refresh.induct)
  case (1 env c podman tries w)
  show ?case
  proof (cases "GetContainer env (fetches w)")
    case (Inr ctnr)
    then show ?thesis by (simp add: Container_refresh.simps)
  next
    case (Inl f)
    show ?thesis
    proof (cases "f = BrokenPipe \<and> \<not> 3 < tries")
      case False
      with Inl show ?thesis by (cases f) (auto simp: Container_refresh.simps)
    next
      case True
      let ?w = "w\<lparr>fetches := fetches w + 1\<rparr>"
      let ?body = "\<lambda>pman. Container_refresh env c pman (tries + 1)"
      obtain r w1 where e: "enter_session env c ?w = (r, w1)"
        by (cases "enter_session env c ?w")
      have s1: "sleeps w1 = sleeps w" and r1: "r \<noteq> Inl TimeoutError"
        using enter_quiet[of env c ?w] e by simp_all
      have "fst (with_client env c ?body ?w) \<noteq> Inl TimeoutError
          \<and> sleeps (snd (with_client env c ?body ?w)) = sleeps w"
      proof (cases r)
        case (Inl x)
        with e r1 s1 show ?thesis by (simp add: with_client_def)
      next
        case (Inr h)
        obtain r2 w2 where b: "Container_refresh env c h (tries + 1) w1 = (r2, w2)"
          by (cases "Container_refresh env c h (tries + 1) w1")
        from "1.IH"[of f h w1] Inl True b
        have "r2 \<noteq> Inl TimeoutError" "sleeps w2 = sleeps w1" by simp_all
        with e Inr b s1 show ?thesis
          by (simp add: with_client_def leave_quiet)
      qed
      with Inl True show ?thesis
        by (auto simp: Container_refresh.simps[of env c podman tries w]
              split: prod.splits sum.splits)
    qed
  qed
qed

lemma container_loop_zero_wait:
  assumes run: "Container_kill_loop env c 0 timeout podman w = Some y"
  shows "fst y \<noteq> Inl TimeoutError
     \<and> (\<exists>n. sleeps (snd y) = sleeps w @ replicate n 0.5)
     \<and> (fst y = Inr ReturnsSelf \<longrightarrow> (\<exists>s. data (snd y) ''status'' = Some s \<and> s \<noteq> ''running''))"
proof -
  let ?P = "\<lambda>(env::environment) (c::session) (wait::real) (timeout::real) (podman::handle) w y.
     wait = 0 \<longrightarrow>
     fst y \<noteq> Inl TimeoutError
     \<and> (\<exists>n. sleeps (snd y) = sleeps w @ replicate n 0.5)
     \<and> (fst y = Inr ReturnsSelf \<longrightarrow> (\<exists>s. data (snd y) ''status'' = Some s \<and> s \<noteq> ''running''))"
  have "?P env c 0 timeout podman w y"
  proof (rule Container_kill_loop.raw_induct[where P = ?P, OF _ run], goal_cases)
    case (1 loop env c wait timeout podman w y)
    note IH = 1(1) and step = 1(2)
    obtain r w1 where rf: "Container_refresh env c podman 1 w = (r, w1)"
      by (cases "Container_refresh env c podman 1 w")
    from refresh_quiet[of env c podman 1 w] rf
    have fr: "r \<noteq> Inl TimeoutError" "sleeps w1 = sleeps w" by simp_all
    show ?case
    proof
      assume z: "wait = 0"
      show "fst y \<noteq> Inl TimeoutError
       \<and> (\<exists>n. sleeps (snd y) = sleeps w @ replicate n 0.5)
       \<and> (fst y = Inr ReturnsSelf \<longrightarrow> (\<exists>s. data (snd y) ''status'' = Some s \<and> s \<noteq> ''running''))"
      proof (cases r)
        case (Inl e)
        with step rf fr show ?thesis by auto
      next
        case (Inr v)
        show ?thesis
        proof (cases "data w1 ''status''")
          case None
          with step rf Inr fr show ?thesis by auto
        next
          case (Some status)
          show ?thesis
          proof (cases "status = ''running''")
            case False
            with step rf Inr fr Some show ?thesis by auto
          next
            case True
            let ?w2 = "w1\<lparr>sleeps := sleeps w1 @ [0.5]\<rparr>"
            from step rf Inr Some True z have "loop env c wait timeout podman ?w2 = Some y"
              by simp
            from IH[OF this] z obtain n where
              "fst y \<noteq> Inl TimeoutError" "sleeps (snd y) = sleeps ?w2 @ replicate n 0.5"
              "fst y = Inr ReturnsSelf \<longrightarrow>
                 (\<exists>s. data (snd y) ''status'' = Some s \<and> s \<noteq> ''running'')"
              by blast
            moreover have "sleeps ?w2 @ replicate n 0.5 = sleeps w @ replicate (Suc n) 0.5"
              using fr by (simp add: replicate_append_same)
            ultimately show ?thesis by metis
          qed
        qed
      qed
    qed
  qed
  then show ?thesis by simp
qed

lemma pod_refresh_quiet:
  "fst (Pod_refresh env podman w) \<noteq> Inl TimeoutError
   \<and> sleeps (snd (Pod_refresh env podman w)) = sleeps w"
  by (auto simp: Pod_refresh_def split: sum.splits)

lemma pod_loop_zero_wait:
  assumes run: "Pod_kill_loop env 0 timeout podman w = Some y"
  shows "fst y \<noteq> Inl TimeoutError
     \<and> (\<exists>n. sleeps (snd y) = sleeps w @ replicate n 0.5)
     \<and> (fst y = Inr ReturnsSelf \<longrightarrow>
          (\<exists>s. data (snd y) ''status'' = Some s \<and> FoldedString_ne env s ''running''))"
proof -
  let ?P = "\<lambda>(env::environment) (wait::real) (timeout::real) (podman::handle) w y.
     wait = 0 \<longrightarrow>
     fst y \<noteq> Inl TimeoutError
     \<and> (\<exists>n. sleeps (snd y) = sleeps w @ replicate n 0.5)
     \<and> (fst y = Inr ReturnsSelf \<longrightarrow>
          (\<exists>s. data (snd y) ''status'' = Some s \<and> FoldedString_ne env s ''running''))"
  have "?P env 0 timeout podman w y"
  proof (rule Pod_kill_loop.raw_induct[where P = ?P, OF _ run], goal_cases)
    case (1 loop env wait timeout podman w y)
    note IH = 1(1) and step = 1(2)
    obtain r w1 where rf: "Pod_refresh env podman w = (r, w1)"
      by (cases "Pod_refresh env podman w")
    from pod_refresh_quiet[of env podman w] rf
    have fr: "r \<noteq> Inl TimeoutError" "sleeps w1 = sleeps w" by simp_all
    show ?case
    proof
      assume z: "wait = 0"
      show "fst y \<noteq> Inl TimeoutError
       \<and> (\<exists>n. sleeps (snd y) = sleeps w @ replicate n 0.5)
       \<and> (fst y = Inr ReturnsSelf \<longrightarrow>
            (\<exists>s. data (snd y) ''status'' = Some s \<and> FoldedString_ne env s ''running''))"
      proof (cases r)
        case (Inl e)
        with step rf fr show ?thesis by auto
      next
        case (Inr v)
        show ?thesis
        proof (cases "data w1 ''status''")
          case None
          with step rf Inr fr show ?thesis by auto
        next
          case (Some status)
          show ?thesis
          proof (cases "FoldedString_ne env status ''running''")
            case True
            with step rf Inr fr Some show ?thesis by auto
          next
            case False
            let ?w2 = "w1\<lparr>sleeps := sleeps w1 @ [0.5]\<rparr>"
            from step rf Inr Some False z have "loop env wait timeout podman ?w2 = Some y"
              by simp
            from IH[OF this] z obtain n where
              "fst y \<noteq> Inl TimeoutError" "sleeps (snd y) = sleeps ?w2 @ replicate n 0.5"
              "fst y = Inr ReturnsSelf \<longrightarrow>
                 (\<exists>s. data (snd y) ''status'' = Some s \<and> FoldedString_ne env s ''running'')"
              by blast
            moreover have "sleeps ?w2 @ replicate n 0.5 = sleeps w @ replicate (Suc n) 0.5"
              using fr by (simp add: replicate_append_same)
            ultimately show ?thesis by metis
          qed
        qed
      qed
    qed
  qed
  then show ?thesis by simp
qed

lemma container_kill_zero_wait:
  assumes run: "Container_kill env c 0 w = Some y"
  shows "fst y \<noteq> Inl TimeoutError
     \<and> (\<exists>n. sleeps (snd y) = sleeps w @ replicate n 0.5)
     \<and> (fst y = Inr ReturnsSelf \<longrightarrow> (\<exists>s. data (snd y) ''status'' = Some s \<and> s \<noteq> ''running''))"
proof -
  obtain r w1 where e: "enter_session env c w = (r, w1)" by (cases "enter_session env c w")
  from enter_quiet[of env c w] e
  have q: "r \<noteq> Inl TimeoutError" "sleeps w1 = sleeps w" by simp_all
  show ?thesis
  proof (cases r)
    case (Inl x)
    with run e q have "y = (Inl x, w1)" by (simp add: Container_kill_def)
    with q Inl have "fst y \<noteq> Inl TimeoutError" "sleeps (snd y) = sleeps w @ replicate 0 0.5"
      "fst y \<noteq> Inr ReturnsSelf" by auto
    then show ?thesis by blast
  next
    case (Inr podman)
    show ?thesis
    proof (cases "KillContainer env")
      case (Some f)
      with run e Inr have y: "y = leave env c (Inl (thrown f), w1)"
        by (simp add: Container_kill_def)
      from leave_quiet[of "Inl (thrown f)" env c w1 ReturnsSelf] y q
      have "fst y \<noteq> Inl TimeoutError" "sleeps (snd y) = sleeps w @ replicate 0 0.5"
        "fst y \<noteq> Inr ReturnsSelf" by auto
      then show ?thesis by blast
    next
      case None
      let ?w2 = "w1\<lparr>clock_reads := clock_reads w1 + 1\<rparr>"
      from run e Inr None obtain y0 where
        y0: "Container_kill_loop env c 0 (time env (clock_reads w1) + 0) podman ?w2 = Some y0"
        and y: "y = leave env c y0"
        by (auto simp: Container_kill_def)
      from container_loop_zero_wait[OF y0] obtain n where l:
        "fst y0 \<noteq> Inl TimeoutError" "sleeps (snd y0) = sleeps ?w2 @ replicate n 0.5"
        "fst y0 = Inr ReturnsSelf \<longrightarrow> (\<exists>s. data (snd y0) ''status'' = Some s \<and> s \<noteq> ''running'')"
        by blast
      from leave_quiet[of "fst y0" env c "snd y0" ReturnsSelf] y l q
      have "fst y \<noteq> Inl TimeoutError" "sleeps (snd y) = sleeps w @ replicate n 0.5"
        "data (snd y) = data (snd y0)" "fst y = Inr ReturnsSelf \<longrightarrow> fst y0 = Inr ReturnsSelf"
        by (cases y0, simp)+
      with l(3) show ?thesis by auto
    qed
  qed
qed

lemma pod_kill_zero_wait:
  assumes run: "Pod_kill env c 0 w = Some y"
  shows "fst y \<noteq> Inl TimeoutError
     \<and> (\<exists>n. sleeps (snd y) = sleeps w @ replicate n 0.5)
     \<and> (fst y = Inr ReturnsSelf \<longrightarrow>
          (\<exists>s. data (snd y) ''status'' = Some s \<and> FoldedString_ne env s ''running''))"
proof -
  obtain r w1 where e: "enter_session env c w = (r, w1)" by (cases "enter_session env c w")
  from enter_quiet[of env c w] e
  have q: "r \<noteq> Inl TimeoutError" "sleeps w1 = sleeps w" by simp_all
  show ?thesis
  proof (cases r)
    case (Inl x)
    with run e q have "y = (Inl x, w1)" by (simp add: Pod_kill_def)
    with q Inl have "fst y \<noteq> Inl TimeoutError" "sleeps (snd y) = sleeps w @ replicate 0 0.5"
      "fst y \<noteq> Inr ReturnsSelf" by auto
    then show ?thesis by blast
  next
    case (Inr podman)
    show ?thesis
    proof (cases "KillPod env")
      case (Some f)
      with run e Inr have y: "y = leave env c (Inl (thrown f), w1)"
        by (simp add: Pod_kill_def)
      from leave_quiet[of "Inl (thrown f)" env c w1 ReturnsSelf] y q
      have "fst y \<noteq> Inl TimeoutError" "sleeps (snd y) = sleeps w @ replicate 0 0.5"
        "fst y \<noteq> Inr ReturnsSelf" by auto
      then show ?thesis by blast
    next
      case None
      let ?w2 = "w1\<lparr>clock_reads := clock_reads w1 + 1\<rparr>"
      from run e Inr None obtain y0 where
        y0: "Pod_kill_loop env 0 (time env (clock_reads w1) + 0) podman ?w2 = Some y0"
        and y: "y = leave env c y0"
        by (auto simp: Pod_kill_def)
      from pod_loop_zero_wait[OF y0] obtain n where l:
        "fst y0 \<noteq> Inl TimeoutError" "sleeps (snd y0) = sleeps ?w2 @ replicate n 0.5"
        "fst y0 = Inr ReturnsSelf \<longrightarrow>
           (\<exists>s. data (snd y0) ''status'' = Some s \<and> FoldedString_ne env s ''running'')"
        by blast
      from leave_quiet[of "fst y0" env c "snd y0" ReturnsSelf] y l q
      have "fst y \<noteq> Inl TimeoutError" "sleeps (snd y) = sleeps w @ replicate n 0.5"
        "data (snd y) = data (snd y0)" "fst y = Inr ReturnsSelf \<longrightarrow> fst y0 = Inr ReturnsSelf"
        by (cases y0, simp)+
      with l(3) show ?thesis by auto
    qed
  qed
qed

lemma update_container_status:
  "map_of ctnr ''status'' = Some s \<Longrightarrow> data (update_container ctnr w) ''status'' = Some s"
  by (simp add: update_container_def Let_def map_add_Some_iff split: option.splits)

lemma refresh_fetched:
  "GetContainer env (fetches w) = Inr ctnr \<Longrightarrow>
   Container_refresh env c podman tries w =
     (Inr ReturnsSelf, update_container ctnr (w\<lparr>fetches := fetches w + 1\<rparr>))"
  by (simp add: Container_refresh.simps)

lemma container_loop_polls:
  "(\<forall>k<n. \<exists>ctnr. GetContainer env (fetches w + k) = Inr ctnr
            \<and> map_of ctnr ''status'' = Some ''running'') \<Longrightarrow>
   GetContainer env (fetches w + n) = Inr last_reply \<Longrightarrow>
   map_of last_reply ''status'' = Some status \<Longrightarrow> status \<noteq> ''running'' \<Longrightarrow>
   \<exists>w'. Container_kill_loop env c 0 timeout podman w = Some (Inr ReturnsSelf, w')
      \<and> sleeps w' = sleeps w @ replicate n 0.5
      \<and> self_iface w' = self_iface w \<and> fetches w' = fetches w + n + 1"
proof (induction n arbitrary: w)
  case 0
  from "0.prems"(2) have f: "GetContainer env (fetches w) = Inr last_reply" by simp
  let ?w1 = "update_container last_reply (w\<lparr>fetches := fetches w + 1\<rparr>)"
  have "data ?w1 ''status'' = Some status"
    using update_container_status[OF "0.prems"(3)] .
  with "0.prems"(4) show ?case
    by (subst Container_kill_loop.simps) (simp add: refresh_fetched[OF f])
next
  case (Suc n)
  from Suc.prems(1)[rule_format, of 0] obtain ctnr where
    f: "GetContainer env (fetches w) = Inr ctnr" and s: "map_of ctnr ''status'' = Some ''running''"
    by auto
  let ?w1 = "update_container ctnr (w\<lparr>fetches := fetches w + 1\<rparr>)"
  let ?w2 = "?w1\<lparr>sleeps := sleeps ?w1 @ [0.5]\<rparr>"
  have st: "data ?w1 ''status'' = Some ''running''"
    using update_container_status[OF s] .
  have step: "Container_kill_loop env c 0 timeout podman w
                = Container_kill_loop env c 0 timeout podman ?w2"
    using st by (subst Container_kill_loop.simps) (simp add: refresh_fetched[OF f])
  have a: "\<forall>k<n. \<exists>ctnr. GetContainer env (fetches ?w2 + k) = Inr ctnr
            \<and> map_of ctnr ''status'' = Some ''running''"
  proof (intro allI impI)
    fix k assume "k < n"
    then have "Suc k < Suc n" by simp
    from Suc.prems(1)[rule_format, OF this]
    show "\<exists>ctnr. GetContainer env (fetches ?w2 + k) = Inr ctnr
            \<and> map_of ctnr ''status'' = Some ''running''" by simp
  qed
  have b: "GetContainer env (fetches ?w2 + n) = Inr last_reply"
    using Suc.prems(2) by simp
  from Suc.IH[OF a b Suc.prems(3) Suc.prems(4)] obtain w' where
    "Container_kill_loop env c 0 timeout podman ?w2 = Some (Inr ReturnsSelf, w')"
    "sleeps w' = sleeps ?w2 @ replicate n 0.5"
    "self_iface w' = self_iface ?w2" "fetches w' = fetches ?w2 + n + 1" by blast
  with step show ?case by (simp add: replicate_append_same)
qed

lemma container_loop_diverges:
  assumes running: "\<forall>k. \<exists>ctnr. GetContainer env k = Inr ctnr
            \<and> map_of ctnr ''status'' = Some ''running''"
  shows "Container_kill_loop env c 0 timeout podman w = None"
proof (rule ccontr)
  assume "Container_kill_loop env c 0 timeout podman w \<noteq> None"
  then obtain y where run: "Container_kill_loop env c 0 timeout podman w = Some y" by blast
  let ?P = "\<lambda>(env::environment) (c::session) (wait::real) (timeout::real) (podman::handle)
      (w::world) (y::(exn + returned) \<times> world).
     wait = 0 \<and> (\<forall>k. \<exists>ctnr. GetContainer env k = Inr ctnr
            \<and> map_of ctnr ''status'' = Some ''running'') \<longrightarrow> False"
  have "?P env c 0 timeout podman w y"
  proof (rule Container_kill_loop.raw_induct[where P = ?P, OF _ run], goal_cases)
    case (1 loop env c wait timeout podman w y)
    note IH = 1(1) and step = 1(2)
    show ?case
    proof
      assume h: "wait = 0 \<and> (\<forall>k. \<exists>ctnr. GetContainer env k = Inr ctnr
            \<and> map_of ctnr ''status'' = Some ''running'')"
      then obtain ctnr where
        f: "GetContainer env (fetches w) = Inr ctnr"
        and s: "map_of ctnr ''status'' = Some ''running''" by blast
      let ?w1 = "update_container ctnr (w\<lparr>fetches := fetches w + 1\<rparr>)"
      have st: "data ?w1 ''status'' = Some ''running''"
        using update_container_status[OF s] .
      from step h st
      have "loop env c wait timeout podman (?w1\<lparr>sleeps := sleeps ?w1 @ [0.5]\<rparr>) = Some y"
        by (simp add: refresh_fetched[OF f])
      from IH[OF this] h show False by blast
    qed
  qed
  with running show False by blast
qed

lemma pod_refresh_fetched:
  "GetPod env (fetches w) = Inr pod \<Longrightarrow>
   Pod_refresh env podman w =
     (Inr ReturnsSelf, w\<lparr>fetches := fetches w + 1, data := data w ++ map_of pod\<rparr>)"
  by (simp add: Pod_refresh_def)

lemma pod_loop_polls:
  "(\<forall>k<n. \<exists>pod s. GetPod env (fetches w + k) = Inr pod \<and> map_of pod ''status'' = Some s
            \<and> \<not> FoldedString_ne env s ''running'') \<Longrightarrow>
   GetPod env (fetches w + n) = Inr last_reply \<Longrightarrow>
   map_of last_reply ''status'' = Some status \<Longrightarrow> FoldedString_ne env status ''running'' \<Longrightarrow>
   \<exists>w'. Pod_kill_loop env 0 timeout podman w = Some (Inr ReturnsSelf, w')
      \<and> sleeps w' = sleeps w @ replicate n 0.5
      \<and> self_iface w' = self_iface w \<and> fetches w' = fetches w + n + 1"
proof (induction n arbitrary: w)
  case 0
  from "0.prems"(2) have f: "GetPod env (fetches w) = Inr last_reply" by simp
  from "0.prems"(3,4) show ?case
    by (subst Pod_kill_loop.simps) (simp add: pod_refresh_fetched[OF f] map_add_Some_iff)
next
  case (Suc n)
  from Suc.prems(1)[rule_format, of 0] obtain pod s where
    f: "GetPod env (fetches w) = Inr pod" and s: "map_of pod ''status'' = Some s"
    and r: "\<not> FoldedString_ne env s ''running''"
    by auto
  let ?w1 = "w\<lparr>fetches := fetches w + 1, data := data w ++ map_of pod\<rparr>"
  let ?w2 = "?w1\<lparr>sleeps := sleeps ?w1 @ [0.5]\<rparr>"
  have step: "Pod_kill_loop env 0 timeout podman w = Pod_kill_loop env 0 timeout podman ?w2"
    using s r by (subst Pod_kill_loop.simps) (simp add: pod_refresh_fetched[OF f] map_add_Some_iff)
  have a: "\<forall>k<n. \<exists>pod s. GetPod env (fetches ?w2 + k) = Inr pod
            \<and> map_of pod ''status'' = Some s \<and> \<not> FoldedString_ne env s ''running''"
  proof (intro allI impI)
    fix k assume "k < n"
    then have "Suc k < Suc n" by simp
    from Suc.prems(1)[rule_format, OF this]
    show "\<exists>pod s. GetPod env (fetches ?w2 + k) = Inr pod
            \<and> map_of pod ''status'' = Some s \<and> \<not> FoldedString_ne env s ''running''" by simp
  qed
  have b: "GetPod env (fetches ?w2 + n) = Inr last_reply"
    using Suc.prems(2) by simp
  from Suc.IH[OF a b Suc.prems(3) Suc.prems(4)] obtain w' where
    "Pod_kill_loop env 0 timeout podman ?w2 = Some (Inr ReturnsSelf, w')"
    "sleeps w' = sleeps ?w2 @ replicate n 0.5"
    "self_iface w' = self_iface ?w2" "fetches w' = fetches ?w2 + n + 1" by blast
  with step show ?case by (simp add: replicate_append_same)
qed

lemma container_kill_polls:
  assumes enter: "enter_session env c w = (Inr podman, w1)"
    and kill: "KillContainer env = None"
    and running: "\<forall>k<n. \<exists>ctnr. GetContainer env (fetches w + k) = Inr ctnr
            \<and> map_of ctnr ''status'' = Some ''running''"
    and last: "GetContainer env (fetches w + n) = Inr last_reply"
      "map_of last_reply ''status'' = Some status" "status \<noteq> ''running''"
  shows "\<exists>w'. Container_kill env c 0 w = Some (Inr ReturnsSelf, w')
      \<and> sleeps w' = sleeps w @ replicate n 0.5"
proof -
  let ?w2 = "w1\<lparr>clock_reads := clock_reads w1 + 1\<rparr>"
  from enter_fetches[of env c w] enter_quiet[of env c w] enter_handle[OF enter] enter
  have w1: "fetches ?w2 = fetches w" "sleeps ?w2 = sleeps w" "self_iface ?w2 = Some podman"
    by simp_all
  from container_loop_polls[of n env ?w2 last_reply status c "time env (clock_reads w1) + 0" podman]
    running last w1
  obtain w' where l:
    "Container_kill_loop env c 0 (time env (clock_reads w1) + 0) podman ?w2
       = Some (Inr ReturnsSelf, w')"
    "sleeps w' = sleeps w @ replicate n 0.5" "self_iface w' = Some podman" by auto
  have "leave env c (Inr ReturnsSelf, w') = (Inr ReturnsSelf, snd (exit_session env c None w'))"
    using l(3) by (simp add: leave_passes)
  with enter kill l show ?thesis by (simp add: Container_kill_def exit_frame)
qed

lemma pod_kill_polls:
  assumes enter: "enter_session env c w = (Inr podman, w1)"
    and kill: "KillPod env = None"
    and running: "\<forall>k<n. \<exists>pod s. GetPod env (fetches w + k) = Inr pod
            \<and> map_of pod ''status'' = Some s \<and> \<not> FoldedString_ne env s ''running''"
    and last: "GetPod env (fetches w + n) = Inr last_reply"
      "map_of last_reply ''status'' = Some status" "FoldedString_ne env status ''running''"
  shows "\<exists>w'. Pod_kill env c 0 w = Some (Inr ReturnsSelf, w')
      \<and> sleeps w' = sleeps w @ replicate n 0.5"
proof -
  let ?w2 = "w1\<lparr>clock_reads := clock_reads w1 + 1\<rparr>"
  from enter_fetches[of env c w] enter_quiet[of env c w] enter_handle[OF enter] enter
  have w1: "fetches ?w2 = fetches w" "sleeps ?w2 = sleeps w" "self_iface ?w2 = Some podman"
    by simp_all
  from pod_loop_polls[of n env ?w2 last_reply status "time env (clock_reads w1) + 0" podman]
    running last w1
  obtain w' where l:
    "Pod_kill_loop env 0 (time env (clock_reads w1) + 0) podman ?w2
       = Some (Inr ReturnsSelf, w')"
    "sleeps w' = sleeps w @ replicate n 0.5" "self_iface w' = Some podman" by auto
  have "leave env c (Inr ReturnsSelf, w') = (Inr ReturnsSelf, snd (exit_session env c None w'))"
    using l(3) by (simp add: leave_passes)
  with enter kill l show ?thesis by (simp add: Pod_kill_def exit_frame)
qed

text \<open>
  C6. With \<^verbatim>\<open>wait = 0\<close>, \<^verbatim>\<open>Container.kill\<close> and \<^verbatim>\<open>Pod.kill\<close> never raise \<^verbatim>\<open>TimeoutError\<close>:
  whenever they end, the result is not that exception, every sleep they made lasted
  half a second, and a normal return means the status last fetched is not \<^verbatim>\<open>running\<close>.
  They wait as long as it takes: when the daemon answers \<^verbatim>\<open>running\<close> to the first \<open>n\<close>
  fetches and something else to the next, for any \<open>n\<close>, the call returns \<^verbatim>\<open>self\<close> after
  exactly \<open>n\<close> sleeps of half a second.
\<close>

theorem kill_zero_wait_waits_indefinitely:
  "(\<forall>y. Container_kill env c 0 w = Some y \<longrightarrow>
        fst y \<noteq> Inl TimeoutError
      \<and> (\<exists>n. sleeps (snd y) = sleeps w @ replicate n 0.5)
      \<and> (fst y = Inr ReturnsSelf \<longrightarrow>
           (\<exists>s. data (snd y) ''status'' = Some s \<and> s \<noteq> ''running'')))
   \<and> (\<forall>y. Pod_kill env c 0 w = Some y \<longrightarrow>
        fst y \<noteq> Inl TimeoutError
      \<and> (\<exists>n. sleeps (snd y) = sleeps w @ replicate n 0.5)
      \<and> (fst y = Inr ReturnsSelf \<longrightarrow>
           (\<exists>s. data (snd y) ''status'' = Some s \<and> FoldedString_ne env s ''running'')))
   \<and> (\<forall>n podman w1 last_reply status.
        enter_session env c w = (Inr podman, w1) \<and> KillContainer env = None
        \<and> (\<forall>k<n. \<exists>ctnr. GetContainer env (fetches w + k) = Inr ctnr
               \<and> map_of ctnr ''status'' = Some ''running'')
        \<and> GetContainer env (fetches w + n) = Inr last_reply
        \<and> map_of last_reply ''status'' = Some status \<and> status \<noteq> ''running''
      \<longrightarrow> (\<exists>w'. Container_kill env c 0 w = Some (Inr ReturnsSelf, w')
             \<and> sleeps w' = sleeps w @ replicate n 0.5))
   \<and> (\<forall>n podman w1 last_reply status.
        enter_session env c w = (Inr podman, w1) \<and> KillPod env = None
        \<and> (\<forall>k<n. \<exists>pod s. GetPod env (fetches w + k) = Inr pod
               \<and> map_of pod ''status'' = Some s \<and> \<not> FoldedString_ne env s ''running'')
        \<and> GetPod env (fetches w + n) = Inr last_reply
        \<and> map_of last_reply ''status'' = Some status \<and> FoldedString_ne env status ''running''
      \<longrightarrow> (\<exists>w'. Pod_kill env c 0 w = Some (Inr ReturnsSelf, w')
             \<and> sleeps w' = sleeps w @ replicate n 0.5))"
proof -
  have container_ends: "\<forall>y. Container_kill env c 0 w = Some y \<longrightarrow>
        fst y \<noteq> Inl TimeoutError
      \<and> (\<exists>n. sleeps (snd y) = sleeps w @ replicate n 0.5)
      \<and> (fst y = Inr ReturnsSelf \<longrightarrow>
           (\<exists>s. data (snd y) ''status'' = Some s \<and> s \<noteq> ''running''))"
    using container_kill_zero_wait[of env c w] by blast
  have pod_ends: "\<forall>y. Pod_kill env c 0 w = Some y \<longrightarrow>
        fst y \<noteq> Inl TimeoutError
      \<and> (\<exists>n. sleeps (snd y) = sleeps w @ replicate n 0.5)
      \<and> (fst y = Inr ReturnsSelf \<longrightarrow>
           (\<exists>s. data (snd y) ''status'' = Some s \<and> FoldedString_ne env s ''running''))"
    using pod_kill_zero_wait[of env c w] by blast
  have container_waits: "\<forall>n podman w1 last_reply status.
        enter_session env c w = (Inr podman, w1) \<and> KillContainer env = None
        \<and> (\<forall>k<n. \<exists>ctnr. GetContainer env (fetches w + k) = Inr ctnr
               \<and> map_of ctnr ''status'' = Some ''running'')
        \<and> GetContainer env (fetches w + n) = Inr last_reply
        \<and> map_of last_reply ''status'' = Some status \<and> status \<noteq> ''running''
      \<longrightarrow> (\<exists>w'. Container_kill env c 0 w = Some (Inr ReturnsSelf, w')
             \<and> sleeps w' = sleeps w @ replicate n 0.5)"
  proof (intro allI impI)
    fix n podman w1 last_reply status
    assume "enter_session env c w = (Inr podman, w1) \<and> KillContainer env = None
        \<and> (\<forall>k<n. \<exists>ctnr. GetContainer env (fetches w + k) = Inr ctnr
               \<and> map_of ctnr ''status'' = Some ''running'')
        \<and> GetContainer env (fetches w + n) = Inr last_reply
        \<and> map_of last_reply ''status'' = Some status \<and> status \<noteq> ''running''"
    then show "\<exists>w'. Container_kill env c 0 w = Some (Inr ReturnsSelf, w')
             \<and> sleeps w' = sleeps w @ replicate n 0.5"
      using container_kill_polls[of env c w podman w1 n last_reply status] by blast
  qed
  have pod_waits: "\<forall>n podman w1 last_reply status.
        enter_session env c w = (Inr podman, w1) \<and> KillPod env = None
        \<and> (\<forall>k<n. \<exists>pod s. GetPod env (fetches w + k) = Inr pod
               \<and> map_of pod ''status'' = Some s \<and> \<not> FoldedString_ne env s ''running'')
        \<and> GetPod env (fetches w + n) = Inr last_reply
        \<and> map_of last_reply ''status'' = Some status \<and> FoldedString_ne env status ''running''
      \<longrightarrow> (\<exists>w'. Pod_kill env c 0 w = Some (Inr ReturnsSelf, w')
             \<and> sleeps w' = sleeps w @ replicate n 0.5)"
  proof (intro allI impI)
    fix n podman w1 last_reply status
    assume "enter_session env c w = (Inr podman, w1) \<and> KillPod env = None
        \<and> (\<forall>k<n. \<exists>pod s. GetPod env (fetches w + k) = Inr pod
               \<and> map_of pod ''status'' = Some s \<and> \<not> FoldedString_ne env s ''running'')
        \<and> GetPod env (fetches w + n) = Inr last_reply
        \<and> map_of last_reply ''status'' = Some status \<and> FoldedString_ne env status ''running''"
    then show "\<exists>w'. Pod_kill env c 0 w = Some (Inr ReturnsSelf, w')
             \<and> sleeps w' = sleeps w @ replicate n 0.5"
      using pod_kill_polls[of env c w podman w1 n last_reply status] by blast
  qed
  from container_ends pod_ends container_waits pod_waits show ?thesis
    by (intro conjI)
qed

theorem kill_zero_wait_waits_indefinitely_witness:
  "(enter_session stops_later Local world0 = (Inr 0, in_session)
    \<and> KillContainer stops_later = None \<and> KillPod stops_later = None)
   \<and> (\<exists>w'. Container_kill stops_later Local 0 world0 = Some (Inr ReturnsSelf, w')
         \<and> sleeps w' = [0.5, 0.5])
   \<and> (\<exists>w'. Pod_kill stops_later Local 0 world0 = Some (Inr ReturnsSelf, w')
         \<and> sleeps w' = [0.5])
   \<and> fst (the (Container_kill stops_later Local 0 world0)) \<noteq> Inl TimeoutError"
proof -
  have e: "enter_session stops_later Local world0 = (Inr 0, in_session)"
    by (simp add: LocalClient_enter_def BaseClient_open_def stops_later_def quiet_daemon_def
        world0_def in_session_def Let_def)
  have k: "KillContainer stops_later = None" "KillPod stops_later = None"
    by (simp_all add: stops_later_def quiet_daemon_def)
  have hc: "enter_session stops_later Local world0 = (Inr 0, in_session)
      \<and> KillContainer stops_later = None
      \<and> (\<forall>k<2. \<exists>ctnr. GetContainer stops_later (fetches world0 + k) = Inr ctnr
             \<and> map_of ctnr ''status'' = Some ''running'')
      \<and> GetContainer stops_later (fetches world0 + 2)
          = Inr [(''id'', ''c1''), (''status'', ''exited'')]
      \<and> map_of [(''id'', ''c1''), (''status'', ''exited'')] ''status'' = Some ''exited''
      \<and> ''exited'' \<noteq> ''running''"
    using e k by (simp add: stops_later_def world0_def)
  have hp: "enter_session stops_later Local world0 = (Inr 0, in_session)
      \<and> KillPod stops_later = None
      \<and> (\<forall>k<1. \<exists>pod s. GetPod stops_later (fetches world0 + k) = Inr pod
             \<and> map_of pod ''status'' = Some s \<and> \<not> FoldedString_ne stops_later s ''running'')
      \<and> GetPod stops_later (fetches world0 + 1)
          = Inr [(''id'', ''p1''), (''status'', ''exited'')]
      \<and> map_of [(''id'', ''p1''), (''status'', ''exited'')] ''status'' = Some ''exited''
      \<and> FoldedString_ne stops_later ''exited'' ''running''"
    using e k by (simp add: stops_later_def quiet_daemon_def world0_def)
  note T = kill_zero_wait_waits_indefinitely[of stops_later Local world0]
  from T[THEN conjunct2, THEN conjunct2, THEN conjunct1, rule_format, OF hc]
  obtain w' where c: "Container_kill stops_later Local 0 world0 = Some (Inr ReturnsSelf, w')"
    "sleeps w' = sleeps world0 @ replicate 2 0.5" by blast
  from T[THEN conjunct2, THEN conjunct2, THEN conjunct2, rule_format, OF hp]
  obtain w'' where p: "Pod_kill stops_later Local 0 world0 = Some (Inr ReturnsSelf, w'')"
    "sleeps w'' = sleeps world0 @ replicate 1 0.5" by blast
  from T[THEN conjunct1, rule_format, OF c(1)]
  have n: "fst (the (Container_kill stops_later Local 0 world0)) \<noteq> Inl TimeoutError"
    using c(1) by simp
  have "sleeps w' = [0.5, 0.5]" "sleeps w'' = [0.5]"
    using c(2) p(2) by (simp_all add: world0_def numeral_2_eq_2)
  with e k c(1) p(1) n show ?thesis by simp
qed

section \<open>A wait of zero never times out\<close>

text \<open>
  C7, as the code has it. With \<^verbatim>\<open>wait = 0\<close>, a session that opens, a \<^verbatim>\<open>KillContainer\<close>
  call that succeeds and a daemon whose every fetch shows the container \<^verbatim>\<open>running\<close>,
  \<^verbatim>\<open>Container.kill\<close> does not return: it raises no \<^verbatim>\<open>TimeoutError\<close> and polls for ever.
\<close>

theorem kill_zero_wait_polls_forever:
  assumes enter: "enter_session env c w = (Inr podman, w1)"
    and kill: "KillContainer env = None"
    and running: "\<forall>k. \<exists>ctnr. GetContainer env k = Inr ctnr
            \<and> map_of ctnr ''status'' = Some ''running''"
  shows "Container_kill env c 0 w = None"
  using enter kill by (simp add: Container_kill_def container_loop_diverges[OF running])

theorem kill_zero_wait_polls_forever_witness:
  "(enter_session quiet_daemon (Remote ''unix:/tmp/podman.sock'') world0 =
      (Inr 0, in_session\<lparr>tunnels := 1, portal := [''unix:/tmp/podman.sock'' \<mapsto> 0]\<rparr>)
    \<and> KillContainer quiet_daemon = None
    \<and> GetContainer quiet_daemon 7 = Inr [(''id'', ''c1''), (''status'', ''running'')])
   \<and> Container_kill quiet_daemon (Remote ''unix:/tmp/podman.sock'') 0 world0 = None"
proof -
  have e: "enter_session quiet_daemon (Remote ''unix:/tmp/podman.sock'') world0 =
      (Inr 0, in_session\<lparr>tunnels := 1, portal := [''unix:/tmp/podman.sock'' \<mapsto> 0]\<rparr>)"
    by (simp add: RemoteClient_enter_def BaseClient_open_def quiet_daemon_def
        world0_def in_session_def Let_def)
  have k: "KillContainer quiet_daemon = None"
    by (simp add: quiet_daemon_def)
  have r: "\<forall>k. \<exists>ctnr. GetContainer quiet_daemon k = Inr ctnr
            \<and> map_of ctnr ''status'' = Some ''running''"
    by (simp add: quiet_daemon_def)
  have g: "GetContainer quiet_daemon 7 = Inr [(''id'', ''c1''), (''status'', ''running'')]"
    by (simp add: quiet_daemon_def)
  from kill_zero_wait_polls_forever[OF e k r] e k g show ?thesis by simp
qed

text \<open>
  The claim as the spec words it fails: against \<open>quiet_daemon\<close>, whose container is
  \<^verbatim>\<open>running\<close> at every fetch, \<^verbatim>\<open>Container.kill\<close> with \<^verbatim>\<open>wait = 0\<close> on a local client
  has no result at all, so it does not raise \<^verbatim>\<open>TimeoutError\<close>.
\<close>

theorem zero_deadline_timeout_counterexample:
  "Container_kill quiet_daemon Local 0 world0 = None"
proof -
  have e: "enter_session quiet_daemon Local world0 = (Inr 0, in_session)"
    by (simp add: LocalClient_enter_def BaseClient_open_def quiet_daemon_def
        world0_def in_session_def Let_def)
  have k: "KillContainer quiet_daemon = None"
    by (simp add: quiet_daemon_def)
  have r: "\<forall>k. \<exists>ctnr. GetContainer quiet_daemon k = Inr ctnr
            \<and> map_of ctnr ''status'' = Some ''running''"
    by (simp add: quiet_daemon_def)
  show ?thesis
    using e k by (simp add: Container_kill_def container_loop_diverges[OF r])
qed

section \<open>Commit always pauses\<close>

lemma enter_commit_calls: "commit_calls (snd (enter_session env c w)) = commit_calls w"
  by (cases c)
     (auto simp: LocalClient_enter_def RemoteClient_enter_def BaseClient_open_def Let_def
        split: option.splits connect_outcome.splits prod.splits sum.splits)

lemma exit_commit_calls: "commit_calls (snd (exit_session env c e w)) = commit_calls w"
  by (cases c)
     (auto simp: LocalClient_exit_def RemoteClient_exit_def BaseClient_close_def Let_def
        split: option.splits exn.splits)

lemma with_client_commit_calls:
  "commit_calls (snd (with_client env c body w)) =
     (case enter_session env c w of
        (Inl e, w1) \<Rightarrow> commit_calls w
      | (Inr h, w1) \<Rightarrow> commit_calls (snd (body h w1)))"
proof (cases "enter_session env c w")
  case (Pair r w1)
  with enter_commit_calls[of env c w] have "commit_calls w1 = commit_calls w" by simp
  with Pair show ?thesis
    by (cases r; cases "body (projr r) w1")
       (simp_all add: with_client_def leave_cases exit_commit_calls)
qed

text \<open>
  C9. Whatever the keyword arguments, \<^verbatim>\<open>Container.commit\<close> sends the daemon at most one
  \<^verbatim>\<open>Commit\<close> call, and that call has the pause flag \<^verbatim>\<open>True\<close>. When no change is an
  ill-formed \<^verbatim>\<open>LABEL\<close> and the session opens, the call is sent, also for
  \<^verbatim>\<open>pause=False\<close>.
\<close>

theorem commit_always_pauses:
  "(commit_calls (snd (Container_commit env c ident image_name kwargs w)) = commit_calls w
    \<or> (\<exists>call. commit_calls (snd (Container_commit env c ident image_name kwargs w))
                 = commit_calls w @ [call]
              \<and> cc_pause call = True \<and> cc_id call = ident
              \<and> cc_image_name call = image_name))
   \<and> (\<forall>podman w1.
         enter_session env c w = (Inr podman, w1)
         \<and> find (\<lambda>ch. take 6 ch = ''LABEL='' \<and> count_list ch (CHR ''='') < 2)
              (case change kwargs of None \<Rightarrow> [] | Some cs \<Rightarrow> cs) = None
       \<longrightarrow> (\<exists>call. commit_calls (snd (Container_commit env c ident image_name kwargs w))
                      = commit_calls w @ [call]
                 \<and> cc_pause call = True))"
proof -
  let ?bad = "\<lambda>ch. take 6 ch = ''LABEL='' \<and> count_list ch (CHR ''='') < 2"
  let ?changes = "case change kwargs of None \<Rightarrow> [] | Some cs \<Rightarrow> if cs \<noteq> [] then cs else []"
  have same: "?changes = (case change kwargs of None \<Rightarrow> [] | Some cs \<Rightarrow> cs)"
    by (simp split: option.splits)
  obtain r w1 where e: "enter_session env c w = (r, w1)" by (cases "enter_session env c w")
  from enter_commit_calls[of env c w] e have cw: "commit_calls w1 = commit_calls w" by simp
  show ?thesis
  proof (cases "find ?bad ?changes")
    case (Some ch)
    then have "snd (Container_commit env c ident image_name kwargs w) = w"
      by (simp add: Container_commit_def Let_def)
    with Some same show ?thesis by simp
  next
    case None
    show ?thesis
    proof (cases r)
      case (Inl x)
      with None e show ?thesis
        by (simp add: Container_commit_def Let_def with_client_commit_calls)
    next
      case (Inr podman)
      with None e cw show ?thesis
        by (simp add: Container_commit_def Let_def with_client_commit_calls
              split: sum.splits option.splits)
    qed
  qed
qed

theorem commit_always_pauses_witness:
  "(enter_session quiet_daemon Local world0 = (Inr 0, in_session)
    \<and> pause unpaused = Some False)
   \<and> commit_calls (snd (Container_commit quiet_daemon Local ''c1'' ''img'' unpaused world0))
       = [\<lparr>cc_id = ''c1'', cc_image_name = ''img'',
           cc_change = [''LABEL=unittest=test_commit''], cc_author = ''bozo'',
           cc_message = [], cc_pause = True\<rparr>]"
proof -
  have e: "enter_session quiet_daemon Local world0 = (Inr 0, in_session)"
    by (simp add: LocalClient_enter_def BaseClient_open_def quiet_daemon_def
        world0_def in_session_def Let_def)
  have p: "pause unpaused = Some False" by (simp add: unpaused_def)
  have h: "enter_session quiet_daemon Local world0 = (Inr 0, in_session)
         \<and> find (\<lambda>ch. take 6 ch = ''LABEL='' \<and> count_list ch (CHR ''='') < 2)
              (case change unpaused of None \<Rightarrow> [] | Some cs \<Rightarrow> cs) = None"
    using e by (simp add: unpaused_def)
  from commit_always_pauses[of quiet_daemon Local "''c1''" "''img''" unpaused world0,
      THEN conjunct2, rule_format, OF h]
  obtain call where c:
    "commit_calls (snd (Container_commit quiet_daemon Local ''c1'' ''img'' unpaused world0))
       = commit_calls world0 @ [call]" "cc_pause call = True" by blast
  have "commit_calls (snd (Container_commit quiet_daemon Local ''c1'' ''img'' unpaused world0))
       = [\<lparr>cc_id = ''c1'', cc_image_name = ''img'',
           cc_change = [''LABEL=unittest=test_commit''], cc_author = ''bozo'',
           cc_message = [], cc_pause = True\<rparr>]"
    by (simp add: Container_commit_def Let_def with_client_commit_calls unpaused_def
          LocalClient_enter_def BaseClient_open_def quiet_daemon_def world0_def)
  with e p c show ?thesis by simp
qed

section \<open>Existence of a container\<close>

text \<open>
  C10. \<^verbatim>\<open>Containers.exists(id_)\<close> returns \<^verbatim>\<open>True\<close> exactly when the field \<^verbatim>\<open>exists\<close> of
  the daemon's reply is 0 and \<^verbatim>\<open>False\<close> for every other value: whenever it returns a
  boolean, the daemon replied and the boolean says whether the field is 0; and when the
  session opens and the daemon replies, it returns that boolean.
\<close>

theorem exists_true_iff_zero:
  "(\<forall>b. fst (Containers_exists env c ident w) = Inr b \<longrightarrow>
         (\<exists>v. ContainerExists env ident = Inr v \<and> b = (v = 0)))
   \<and> (\<forall>podman w1 v. enter_session env c w = (Inr podman, w1)
         \<and> ContainerExists env ident = Inr v
       \<longrightarrow> fst (Containers_exists env c ident w) = Inr (v = 0))"
proof -
  let ?body = "\<lambda>(podman::handle) w1.
                case ContainerExists env ident of
                  Inl f \<Rightarrow> (Inl (thrown f), w1)
                | Inr exists_field \<Rightarrow>
                    if exists_field = 0 then (Inr (Some True), w1) else (Inr None, w1)"
  obtain r w1 where e: "enter_session env c w = (r, w1)" by (cases "enter_session env c w")
  have returns: "\<exists>v. ContainerExists env ident = Inr v \<and> b = (v = 0)"
    if b: "fst (Containers_exists env c ident w) = Inr b" for b
  proof (cases r)
    case (Inl x)
    with e b show ?thesis by (simp add: Containers_exists_def with_client_def)
  next
    case (Inr podman)
    show ?thesis
    proof (cases "ContainerExists env ident")
      case (Inl f)
      with e Inr b show ?thesis
        by (auto simp: Containers_exists_def with_client_def leave_cases
            split: sum.splits option.splits)
    next
      case v: (Inr v)
      with e Inr b show ?thesis
        by (auto simp: Containers_exists_def with_client_def leave_cases
            split: sum.splits option.splits if_splits)
    qed
  qed
  have replies: "fst (Containers_exists env c ident w) = Inr (v = 0)"
    if h: "enter_session env c w = (Inr podman, w1')" "ContainerExists env ident = Inr v"
    for podman w1' v
  proof -
    from enter_handle[OF h(1)] have "self_iface w1' \<noteq> None" by simp
    then have l: "\<And>x::bool option.
        leave env c (Inr x, w1') = (Inr x, snd (exit_session env c None w1'))"
      by (simp add: leave_passes)
    from h show ?thesis
      by (simp add: Containers_exists_def with_client_def l)
  qed
  from returns replies show ?thesis by blast
qed

theorem exists_true_iff_zero_witness:
  "(enter_session quiet_daemon Local world0 = (Inr 0, in_session)
     \<and> ContainerExists quiet_daemon ''c1'' = Inr 0
     \<and> ContainerExists answers_one ''c1'' = Inr 1)
   \<and> fst (Containers_exists quiet_daemon Local ''c1'' world0) = Inr True
   \<and> fst (Containers_exists answers_one Local ''c1'' world0) = Inr False"
proof -
  have e: "enter_session quiet_daemon Local world0 = (Inr 0, in_session)"
    "enter_session answers_one Local world0 = (Inr 0, in_session)"
    by (simp_all add: LocalClient_enter_def BaseClient_open_def quiet_daemon_def
        answers_one_def world0_def in_session_def Let_def)
  have v: "ContainerExists quiet_daemon ''c1'' = Inr 0"
    "ContainerExists answers_one ''c1'' = Inr 1"
    by (simp_all add: quiet_daemon_def answers_one_def)
  from exists_true_iff_zero[of quiet_daemon Local "''c1''" world0,
      THEN conjunct2, rule_format, OF conjI[OF e(1) v(1)]]
    exists_true_iff_zero[of answers_one Local "''c1''" world0,
      THEN conjunct2, rule_format, OF conjI[OF e(2) v(2)]]
    e v
  show ?thesis by simp
qed

end
